theory Spec2Isabelle
  imports Main "HOL-Library.Word"
begin

section \<open>Property trees\<close>

text \<open>
  \<^verbatim>\<open>boost::property_tree::ptree\<close>: every node carries a string datum and an ordered
  sequence of (key, subtree) children; keys may repeat. A \<^verbatim>\<open>boost::shared_ptr<ptree>\<close>
  is a \<open>ptree option\<close>, \<open>None\<close> being the null pointer. The tree library is not part
  of the module; its operations are written down here as far as the module calls them.
\<close>

datatype ptree = Node (pt_data: string) (pt_children: "(string \<times> ptree) list")

datatype error =
    NullPointer string
  | NullDereference
  | PtreeBadPath
  | PtreeBadData
  | JsonParserError string

type_synonym log = "string list"

definition endl :: string where
  "endl = [CHR 0x0A]"

text \<open>
  The library's \<^verbatim>\<open>basic_ptree::walk_path\<close> over a \<^verbatim>\<open>string_path\<close> with separator
  \<^verbatim>\<open>'.'\<close>: an exhausted path denotes the node itself; otherwise \<^verbatim>\<open>reduce()\<close> cuts the
  fragment before the next separator, steps over that separator unless the path ends
  there, and the walk goes on in the child that \<^verbatim>\<open>find(fragment)\<close> yields: a child
  stored under that key, none when no child has it. Of several children under one key
  the first in sequence is taken (\<open>map_of\<close>).
\<close>

function walk_path :: "string \<Rightarrow> ptree \<Rightarrow> ptree option" where
  "walk_path p t =
     (if p = [] then Some t
      else
        let fragment = takeWhile (\<lambda>c. c \<noteq> CHR ''.'') p;
            next_sep = dropWhile (\<lambda>c. c \<noteq> CHR ''.'') p;
            p' = (if next_sep \<noteq> [] then tl next_sep else next_sep)
        in case map_of (pt_children t) fragment of
             None \<Rightarrow> None
           | Some el \<Rightarrow> walk_path p' el)"
  by pat_completeness auto
termination
proof (relation "measure (\<lambda>(p, t). length p)")
  show "wf (measure (\<lambda>(p, t). length p))" by simp
next
  fix p :: string and t :: ptree and x xa xb x2
  assume ne: "p \<noteq> []"
    and xa: "xa = dropWhile (\<lambda>c. c \<noteq> CHR ''.'') p"
    and xb: "xb = (if xa \<noteq> [] then tl xa else xa)"
  have le: "length xa \<le> length p"
    unfolding xa by (rule length_dropWhile_le)
  have "length xb < length p"
  proof (cases "xa = []")
    case True
    with xb ne show ?thesis by simp
  next
    case False
    with le have "length (tl xa) < length p" by (cases xa) auto
    with xb False show ?thesis by simp
  qed
  then show "((xb, x2), (p, t)) \<in> measure (\<lambda>(p, t). length p)" by simp
qed

declare walk_path.simps [simp del]

text \<open>\<^verbatim>\<open>pt->get_child_optional(path)\<close> through a shared pointer.\<close>

definition get_child_optional :: "ptree option \<Rightarrow> string \<Rightarrow> error + ptree option" where
  "get_child_optional pt path =
     (case pt of
        None \<Rightarrow> Inl NullDereference
      | Some t \<Rightarrow> Inr (walk_path path t))"

text \<open>
  \<^verbatim>\<open>pt->get_child(path).get_value<std::string>()\<close>: the datum of the node at the path;
  a path that leads nowhere raises \<^verbatim>\<open>ptree_bad_path\<close>. Reading a datum as a string
  cannot fail.
\<close>

definition get_child_value :: "ptree option \<Rightarrow> string \<Rightarrow> error + string" where
  "get_child_value pt path =
     (case pt of
        None \<Rightarrow> Inl NullDereference
      | Some t \<Rightarrow>
          (case walk_path path t of
             None \<Rightarrow> Inl PtreeBadPath
           | Some c \<Rightarrow> Inr (pt_data c)))"

definition ptreeHasChild :: "ptree option \<Rightarrow> string \<Rightarrow> error + bool" where
  "ptreeHasChild pt childName =
     (case get_child_optional pt childName of
        Inl e \<Rightarrow> Inl e
      | Inr r \<Rightarrow> (if r = None then Inr False else Inr True))"

text \<open>The short-circuit conjunction of two calls that may fault.\<close>

definition and_also :: "error + bool \<Rightarrow> error + bool \<Rightarrow> error + bool" where
  "and_also a b = (case a of Inl e \<Rightarrow> Inl e | Inr x \<Rightarrow> (if x then b else Inr False))"

definition checkDjangoError :: "ptree option \<Rightarrow> (error + bool) \<times> log" where
  "checkDjangoError pt =
     (if pt = None then
        (Inr True, [''JSON Error: null property tree'' @ endl])
      else
        case and_also (ptreeHasChild pt ''info'') (ptreeHasChild pt ''traceback'') of
          Inl e \<Rightarrow> (Inl e, [])
        | Inr True \<Rightarrow>
            (case get_child_value pt ''info'' of
               Inl e \<Rightarrow> (Inl e, [])
             | Inr info \<Rightarrow>
                 (case get_child_value pt ''traceback'' of
                    Inl e \<Rightarrow> (Inl e, [''Django error: '' @ info @ endl])
                  | Inr tb \<Rightarrow>
                      (Inr True,
                       [''Django error: '' @ info @ endl,
                        ''    traceback: '' @ tb @ endl])))
        | Inr False \<Rightarrow>
            (case ptreeHasChild pt ''djerror'' of
               Inl e \<Rightarrow> (Inl e, [])
             | Inr True \<Rightarrow>
                 (case get_child_value pt ''djerror'' of
                    Inl e \<Rightarrow> (Inl e, [])
                  | Inr v \<Rightarrow> (Inr True, [''Django error: '' @ v @ endl]))
             | Inr False \<Rightarrow>
                 (case ptreeHasChild pt ''error'' of
                    Inl e \<Rightarrow> (Inl e, [])
                  | Inr True \<Rightarrow>
                      (case get_child_value pt ''error'' of
                         Inl e \<Rightarrow> (Inl e, [])
                       | Inr v \<Rightarrow> (Inr True, [''HTTP Error: '' @ v @ endl]))
                  | Inr False \<Rightarrow> (Inr False, []))))"

text \<open>The keys of the direct children of a node.\<close>

definition child_keys :: "ptree \<Rightarrow> string set" where
  "child_keys t = fst ` set (pt_children t)"

text \<open>The datum of the first direct child stored under a key (empty when there is none).\<close>

definition child_datum :: "ptree \<Rightarrow> string \<Rightarrow> string" where
  "child_datum t k = (case map_of (pt_children t) k of None \<Rightarrow> [] | Some c \<Rightarrow> pt_data c)"

text \<open>
  \<^verbatim>\<open>pt->put(key, value)\<close> for a key of one path fragment: the datum of the first child
  under the key is replaced, and a child is appended when there is none.
\<close>

fun put_first :: "string \<Rightarrow> string \<Rightarrow> (string \<times> ptree) list \<Rightarrow> (string \<times> ptree) list" where
  "put_first k v [] = [(k, Node v [])]"
| "put_first k v ((k', c) # cs) =
     (if k' = k then (k', Node v (pt_children c)) # cs else (k', c) # put_first k v cs)"

definition ptree_put :: "string \<Rightarrow> string \<Rightarrow> ptree \<Rightarrow> ptree" where
  "ptree_put k v t = Node (pt_data t) (put_first k v (pt_children t))"

text \<open>
  \<^verbatim>\<open>ptreeVector<T>\<close>. The conversion \<^verbatim>\<open>get_value<T>()\<close> of a datum is a parameter
  \<open>tr\<close>; \<open>None\<close> is the library's \<^verbatim>\<open>ptree_bad_data\<close>. The vector is passed by
  reference, so it is returned also when the loop is left by the exception. The counter
  is an \<^verbatim>\<open>unsigned int\<close>; the header documents the result as the number of elements
  that were pushed into the vector.
\<close>

fun ptreeVector_loop ::
  "(string \<Rightarrow> 'a option) \<Rightarrow> (string \<times> ptree) list \<Rightarrow> 32 word \<times> 'a list \<Rightarrow>
   (error + 32 word) \<times> 'a list" where
  "ptreeVector_loop tr [] (count, vect) = (Inr count, vect)"
| "ptreeVector_loop tr (v # vs) (count, vect) =
     (case tr (pt_data (snd v)) of
        None \<Rightarrow> (Inl PtreeBadData, vect)
      | Some x \<Rightarrow> ptreeVector_loop tr vs (count + 1, vect @ [x]))"

definition ptreeVector ::
  "(string \<Rightarrow> 'a option) \<Rightarrow> ptree \<Rightarrow> 'a list \<Rightarrow> (error + 32 word) \<times> 'a list" where
  "ptreeVector tr pt vect = ptreeVector_loop tr (pt_children pt) (0, vect)"


section \<open>Responses and callbacks\<close>

type_synonym size_t = "64 word"

type_synonym headermap = "string \<rightharpoonup> string"

record response =
  code :: int
  body :: string
  headers :: headermap

text \<open>
  The upload cursor. The pointer \<^verbatim>\<open>data\<close> is modelled by the bytes readable at it, so
  advancing the pointer drops bytes from the front. The names \<open>length'\<close> and, below,
  \<open>size'\<close> and \<open>dat\<close> stand for the source's \<^verbatim>\<open>length\<close>, \<^verbatim>\<open>size\<close> and \<^verbatim>\<open>data\<close>.
\<close>

record upload_object =
  data :: string
  length' :: size_t

text \<open>\<^verbatim>\<open>std::isspace\<close> in the "C" locale.\<close>

definition isspace :: "char \<Rightarrow> bool" where
  "isspace c =
     (c = CHR 0x20 \<or> c = CHR 0x09 \<or> c = CHR 0x0A \<or> c = CHR 0x0B \<or> c = CHR 0x0C \<or> c = CHR 0x0D)"

definition ltrim :: "string \<Rightarrow> string" where
  "ltrim s = dropWhile isspace s"

definition rtrim :: "string \<Rightarrow> string" where
  "rtrim s = rev (dropWhile isspace (rev s))"

definition trim :: "string \<Rightarrow> string" where
  "trim s = ltrim (rtrim s)"

text \<open>\<^verbatim>\<open>s.find_first_of(":")\<close> for a one-character set; \<open>None\<close> is \<^verbatim>\<open>npos\<close>.\<close>

fun find_first_of :: "char \<Rightarrow> string \<Rightarrow> nat option" where
  "find_first_of c [] = None"
| "find_first_of c (x # xs) = (if x = c then Some 0 else map_option Suc (find_first_of c xs))"

text \<open>
  The callbacks take the bytes readable at the transport's pointer and the two size
  arguments; each returns its \<^verbatim>\<open>size_t\<close> result and the updated user data.
\<close>

definition write_callback :: "string \<Rightarrow> size_t \<Rightarrow> size_t \<Rightarrow> response \<Rightarrow> size_t \<times> response" where
  "write_callback dat size' nmemb r =
     (size' * nmemb, r\<lparr>body := body r @ take (unat (size' * nmemb)) dat\<rparr>)"

definition header_callback :: "string \<Rightarrow> size_t \<Rightarrow> size_t \<Rightarrow> response \<Rightarrow> size_t \<times> response" where
  "header_callback dat size' nmemb r =
     (let header = take (unat (size' * nmemb)) dat
      in case find_first_of CHR '':'' header of
           None \<Rightarrow>
             (let header' = trim header
              in if 0 = length header' then (size' * nmemb, r)
                 else (size' * nmemb, r\<lparr>headers := (headers r)(header' \<mapsto> ''present'')\<rparr>))
         | Some seperator \<Rightarrow>
             (let key = trim (take seperator header);
                  val = trim (drop (seperator + 1) header)
              in (size' * nmemb, r\<lparr>headers := (headers r)(key \<mapsto> val)\<rparr>)))"

text \<open>
  \<^verbatim>\<open>read_callback\<close> returns the copied size, the bytes that \<^verbatim>\<open>memcpy\<close> put into the
  transport's buffer, and the advanced cursor.
\<close>

definition read_callback :: "size_t \<Rightarrow> size_t \<Rightarrow> upload_object \<Rightarrow> size_t \<times> string \<times> upload_object" where
  "read_callback size' nmemb u =
     (let curl_size = size' * nmemb;
          copy_size = (if length' u < curl_size then length' u else curl_size)
      in (copy_size,
          take (unat copy_size) (data u),
          u\<lparr>length' := length' u - copy_size, data := drop (unat copy_size) (data u)\<rparr>))"

text \<open>Repeated invocations of \<^verbatim>\<open>read_callback\<close>, collecting the bytes handed over.\<close>

fun read_all :: "(size_t \<times> size_t) list \<Rightarrow> upload_object \<Rightarrow> string \<times> upload_object" where
  "read_all [] u = ([], u)"
| "read_all ((size', nmemb) # reqs) u =
     (case read_callback size' nmemb u of
        (n, bytes, u') \<Rightarrow> (case read_all reqs u' of (rest, u'') \<Rightarrow> (bytes @ rest, u'')))"


section \<open>The transport\<close>

text \<open>
  The transport library is outside the module. Its handle is modelled by the sequence
  of calls made on it. A string given to the transport as \<^verbatim>\<open>s.c_str()\<close> reaches it as a
  C string, the bytes of \<open>s\<close> before the first NUL (\<open>c_string\<close>); the body of a POST
  is given with its size and reaches it whole.
\<close>

text \<open>A character array read as a C string: the bytes before the first NUL.\<close>

definition c_string :: "string \<Rightarrow> string" where
  "c_string buf = takeWhile (\<lambda>c. c \<noteq> CHR 0x00) buf"

datatype curlauth = CURLAUTH_BASIC

datatype curl_option =
    CURLOPT_ERRORBUFFER
  | CURLOPT_HTTPAUTH curlauth
  | CURLOPT_USERPWD string
  | CURLOPT_USERAGENT string
  | CURLOPT_URL string
  | CURLOPT_POST int
  | CURLOPT_POSTFIELDS string
  | CURLOPT_POSTFIELDSIZE size_t
  | CURLOPT_PUT int
  | CURLOPT_UPLOAD int
  | CURLOPT_READFUNCTION
  | CURLOPT_READDATA
  | CURLOPT_WRITEFUNCTION
  | CURLOPT_WRITEDATA
  | CURLOPT_HEADERFUNCTION
  | CURLOPT_HEADERDATA
  | CURLOPT_INFILESIZE "64 word"
  | CURLOPT_HTTPHEADER "string list"
  | CURLOPT_CUSTOMREQUEST string

datatype curl_call = Setopt curl_option | Perform | Getinfo_RESPONSE_CODE | Reset

text \<open>The callbacks the transport makes while a request is performed.\<close>

datatype callback =
    Write_cb string size_t size_t
  | Header_cb string size_t size_t
  | Read_cb size_t size_t

text \<open>
  What one \<^verbatim>\<open>curl_easy_perform\<close> does: the \<^verbatim>\<open>CURLcode\<close> it returns, the callbacks it
  makes, the text it leaves in the error buffer, and the status code a later
  \<^verbatim>\<open>curl_easy_getinfo\<close> would report (a \<^verbatim>\<open>long\<close>).
\<close>

record curl_outcome =
  curlcode :: nat
  callbacks :: "callback list"
  error_text :: string
  http_code :: "64 word"

text \<open>
  Everything the module takes from outside: whether \<^verbatim>\<open>curl_easy_init\<close> yields a handle,
  the outcome of a perform after the calls made so far, the stock error descriptions, the
  JSON decoder (\<open>Inl\<close> is the message of its exception), and the indeterminate value of
  an \<^verbatim>\<open>int\<close> that has not been initialised.
\<close>

record env =
  curl_easy_init :: bool
  curl_easy_perform :: "curl_call list \<Rightarrow> curl_outcome"
  curl_easy_strerror :: "nat \<Rightarrow> string"
  read_json :: "string \<Rightarrow> string + ptree"
  uninitialized_int :: int

definition CURLE_OK :: nat where
  "CURLE_OK = 0"

text \<open>The constant of the transport's header file.\<close>

definition CURL_ERROR_SIZE :: nat where
  "CURL_ERROR_SIZE = 256"

definition user_agent :: string where
  "user_agent = ''sopnet/0.10''"

text \<open>\<^verbatim>\<open>static_cast<int>\<close> of a \<^verbatim>\<open>long\<close>: the low 32 bits, read as two's complement.\<close>

definition static_cast_int :: "64 word \<Rightarrow> int" where
  "static_cast_int l = sint (ucast l :: 32 word)"


section \<open>The client\<close>

text \<open>
  The client holds the credential string and the transport handle. Every
  \<^verbatim>\<open>curl_easy_setopt\<close>, \<^verbatim>\<open>curl_easy_perform\<close>, \<^verbatim>\<open>curl_easy_getinfo\<close> and
  \<^verbatim>\<open>curl_easy_reset\<close> of the source appends its call to the handle. The constructor
  raises when no handle can be had.
\<close>

record client =
  user_pass :: string
  curl :: "curl_call list"

definition HttpClient :: "env \<Rightarrow> error + client" where
  "HttpClient E =
     (if \<not> curl_easy_init E then Inl (NullPointer ''curl_easy_init returned NULL'')
      else Inr \<lparr>user_pass = [], curl = []\<rparr>)"

definition clearAuth :: "client \<Rightarrow> client" where
  "clearAuth c = c\<lparr>user_pass := []\<rparr>"

definition setAuth :: "string \<Rightarrow> string \<Rightarrow> client \<Rightarrow> client" where
  "setAuth user password c =
     (let c = c\<lparr>user_pass := []\<rparr>
      in c\<lparr>user_pass := user_pass c @ (user @ '':'' @ password)\<rparr>)"

text \<open>
  The error buffer is a character array of \<open>CURL_ERROR_SIZE\<close> bytes, zeroed by the verb
  method and then written by the transport.
\<close>

definition checkCurlError :: "(nat \<Rightarrow> string) \<Rightarrow> nat \<Rightarrow> string \<Rightarrow> response \<Rightarrow> bool \<times> response" where
  "checkCurlError strerror res curlErrorBuffer ret =
     (if CURLE_OK \<noteq> res then
        let ret = ret\<lparr>body := ''Failed to query. CURL error: ''\<rparr>;
            ret = ret\<lparr>body := body ret @ strerror res\<rparr>;
            ret = ret\<lparr>body := body ret @ '' DETAIL: ''\<rparr>;
            curlErrorBuffer = curlErrorBuffer[CURL_ERROR_SIZE - 1 := CHR 0x00];
            ret = ret\<lparr>body := body ret @ c_string curlErrorBuffer\<rparr>;
            ret = ret\<lparr>code := - 1\<rparr>
        in (True, ret)
      else (False, ret))"

text \<open>
  The transport's callbacks in the order it makes them. A read request reaches
  \<^verbatim>\<open>read_callback\<close> only when an upload cursor was registered.
\<close>

fun run_callbacks ::
  "callback list \<Rightarrow> response \<times> upload_object option \<Rightarrow> response \<times> upload_object option" where
  "run_callbacks [] s = s"
| "run_callbacks (Write_cb dat size' nmemb # cbs) (r, u) =
     run_callbacks cbs (snd (write_callback dat size' nmemb r), u)"
| "run_callbacks (Header_cb dat size' nmemb # cbs) (r, u) =
     run_callbacks cbs (snd (header_callback dat size' nmemb r), u)"
| "run_callbacks (Read_cb size' nmemb # cbs) (r, u) =
     run_callbacks cbs (r, map_option (\<lambda>u. snd (snd (read_callback size' nmemb u))) u)"

definition get :: "env \<Rightarrow> string \<Rightarrow> client \<Rightarrow> response \<times> client" where
  "get E url c =
     (let ret = \<lparr>code = uninitialized_int E, body = [], headers = Map.empty\<rparr>;
          curlError = replicate CURL_ERROR_SIZE (CHR 0x00);
          h = curl c @ [Setopt CURLOPT_ERRORBUFFER];
          h = (if length (user_pass c) > 0
               then h @ [Setopt (CURLOPT_HTTPAUTH CURLAUTH_BASIC),
                         Setopt (CURLOPT_USERPWD (c_string (user_pass c)))]
               else h);
          h = h @ [Setopt (CURLOPT_USERAGENT user_agent), Setopt (CURLOPT_URL (c_string url))];
          h = h @ [Setopt CURLOPT_WRITEFUNCTION, Setopt CURLOPT_WRITEDATA];
          h = h @ [Setopt CURLOPT_HEADERFUNCTION, Setopt CURLOPT_HEADERDATA];
          outcome = curl_easy_perform E h;
          h = h @ [Perform];
          ret = fst (run_callbacks (callbacks outcome) (ret, None));
          curlError = take CURL_ERROR_SIZE (error_text outcome @ curlError)
      in case checkCurlError (curl_easy_strerror E) (curlcode outcome) curlError ret of
           (True, ret) \<Rightarrow> (ret, c\<lparr>curl := h @ [Reset]\<rparr>)
         | (False, ret) \<Rightarrow>
             (let h = h @ [Getinfo_RESPONSE_CODE];
                  ret = ret\<lparr>code := static_cast_int (http_code outcome)\<rparr>
              in (ret, c\<lparr>curl := h @ [Reset]\<rparr>)))"

definition post :: "env \<Rightarrow> string \<Rightarrow> string \<Rightarrow> string \<Rightarrow> client \<Rightarrow> response \<times> client" where
  "post E url ctype dat c =
     (let ret = \<lparr>code = uninitialized_int E, body = [], headers = Map.empty\<rparr>;
          ctype_header = ''Content-Type: '' @ ctype;
          curlError = replicate CURL_ERROR_SIZE (CHR 0x00);
          h = curl c @ [Setopt CURLOPT_ERRORBUFFER];
          h = (if length (user_pass c) > 0
               then h @ [Setopt (CURLOPT_HTTPAUTH CURLAUTH_BASIC),
                         Setopt (CURLOPT_USERPWD (c_string (user_pass c)))]
               else h);
          h = h @ [Setopt (CURLOPT_USERAGENT user_agent), Setopt (CURLOPT_URL (c_string url))];
          h = h @ [Setopt (CURLOPT_POST 1)];
          h = h @ [Setopt (CURLOPT_POSTFIELDS dat)];
          h = h @ [Setopt (CURLOPT_POSTFIELDSIZE (of_nat (length dat)))];
          h = h @ [Setopt CURLOPT_WRITEFUNCTION, Setopt CURLOPT_WRITEDATA];
          h = h @ [Setopt CURLOPT_HEADERFUNCTION, Setopt CURLOPT_HEADERDATA];
          h = h @ [Setopt (CURLOPT_HTTPHEADER [c_string ctype_header])];
          outcome = curl_easy_perform E h;
          h = h @ [Perform];
          ret = fst (run_callbacks (callbacks outcome) (ret, None));
          curlError = take CURL_ERROR_SIZE (error_text outcome @ curlError)
      in case checkCurlError (curl_easy_strerror E) (curlcode outcome) curlError ret of
           (True, ret) \<Rightarrow> (ret, c\<lparr>curl := h @ [Reset]\<rparr>)
         | (False, ret) \<Rightarrow>
             (let h = h @ [Getinfo_RESPONSE_CODE];
                  ret = ret\<lparr>code := static_cast_int (http_code outcome)\<rparr>
              in (ret, c\<lparr>curl := h @ [Reset]\<rparr>)))"

definition put :: "env \<Rightarrow> string \<Rightarrow> string \<Rightarrow> string \<Rightarrow> client \<Rightarrow> response \<times> client" where
  "put E url ctype dat c =
     (let ret = \<lparr>code = uninitialized_int E, body = [], headers = Map.empty\<rparr>;
          ctype_header = ''Content-Type: '' @ ctype;
          up_obj = \<lparr>data = dat @ [CHR 0x00], length' = of_nat (length dat)\<rparr>;
          curlError = replicate CURL_ERROR_SIZE (CHR 0x00);
          h = curl c @ [Setopt CURLOPT_ERRORBUFFER];
          h = (if length (user_pass c) > 0
               then h @ [Setopt (CURLOPT_HTTPAUTH CURLAUTH_BASIC),
                         Setopt (CURLOPT_USERPWD (c_string (user_pass c)))]
               else h);
          h = h @ [Setopt (CURLOPT_USERAGENT user_agent), Setopt (CURLOPT_URL (c_string url))];
          h = h @ [Setopt (CURLOPT_PUT 1)];
          h = h @ [Setopt (CURLOPT_UPLOAD 1)];
          h = h @ [Setopt CURLOPT_READFUNCTION, Setopt CURLOPT_READDATA];
          h = h @ [Setopt CURLOPT_WRITEFUNCTION, Setopt CURLOPT_WRITEDATA];
          h = h @ [Setopt CURLOPT_HEADERFUNCTION, Setopt CURLOPT_HEADERDATA];
          h = h @ [Setopt (CURLOPT_INFILESIZE (length' up_obj))];
          h = h @ [Setopt (CURLOPT_HTTPHEADER [c_string ctype_header])];
          outcome = curl_easy_perform E h;
          h = h @ [Perform];
          ret = fst (run_callbacks (callbacks outcome) (ret, Some up_obj));
          curlError = take CURL_ERROR_SIZE (error_text outcome @ curlError)
      in case checkCurlError (curl_easy_strerror E) (curlcode outcome) curlError ret of
           (True, ret) \<Rightarrow> (ret, c\<lparr>curl := h @ [Reset]\<rparr>)
         | (False, ret) \<Rightarrow>
             (let h = h @ [Getinfo_RESPONSE_CODE];
                  ret = ret\<lparr>code := static_cast_int (http_code outcome)\<rparr>
              in (ret, c\<lparr>curl := h @ [Reset]\<rparr>)))"

definition del :: "env \<Rightarrow> string \<Rightarrow> client \<Rightarrow> response \<times> client" where
  "del E url c =
     (let ret = \<lparr>code = uninitialized_int E, body = [], headers = Map.empty\<rparr>;
          http_delete = ''DELETE'';
          curlError = replicate CURL_ERROR_SIZE (CHR 0x00);
          h = curl c @ [Setopt CURLOPT_ERRORBUFFER];
          h = (if length (user_pass c) > 0
               then h @ [Setopt (CURLOPT_HTTPAUTH CURLAUTH_BASIC),
                         Setopt (CURLOPT_USERPWD (c_string (user_pass c)))]
               else h);
          h = h @ [Setopt (CURLOPT_USERAGENT user_agent), Setopt (CURLOPT_URL (c_string url))];
          h = h @ [Setopt (CURLOPT_CUSTOMREQUEST http_delete)];
          h = h @ [Setopt CURLOPT_WRITEFUNCTION, Setopt CURLOPT_WRITEDATA];
          h = h @ [Setopt CURLOPT_HEADERFUNCTION, Setopt CURLOPT_HEADERDATA];
          outcome = curl_easy_perform E h;
          h = h @ [Perform];
          ret = fst (run_callbacks (callbacks outcome) (ret, None));
          curlError = take CURL_ERROR_SIZE (error_text outcome @ curlError)
      in case checkCurlError (curl_easy_strerror E) (curlcode outcome) curlError ret of
           (True, ret) \<Rightarrow> (ret, c\<lparr>curl := h @ [Reset]\<rparr>)
         | (False, ret) \<Rightarrow>
             (let h = h @ [Getinfo_RESPONSE_CODE];
                  ret = ret\<lparr>code := static_cast_int (http_code outcome)\<rparr>
              in (ret, c\<lparr>curl := h @ [Reset]\<rparr>)))"


section \<open>The JSON layer\<close>

text \<open>\<^verbatim>\<open>os << n\<close> for an \<^verbatim>\<open>int\<close>: decimal digits, with a minus sign below zero.\<close>

fun decimal_digits :: "nat \<Rightarrow> string" where
  "decimal_digits n =
     (if n < 10 then [''0123456789'' ! n]
      else decimal_digits (n div 10) @ [''0123456789'' ! (n mod 10)])"

declare decimal_digits.simps [simp del]

definition show_int :: "int \<Rightarrow> string" where
  "show_int i = (if i < 0 then CHR ''-'' # decimal_digits (nat (- i)) else decimal_digits (nat i))"

definition handleNon200 :: "response \<Rightarrow> string \<Rightarrow> log" where
  "handleNon200 res url =
     [''When trying url ['' @ url @ ''], received non-OK code '' @ show_int (code res) @ endl]"

definition parsePtree :: "(string \<Rightarrow> string + ptree) \<Rightarrow> response \<Rightarrow> string \<Rightarrow> (error + ptree option) \<times> log" where
  "parsePtree decode res url =
     (if code res \<noteq> 200 then
        let pt = Node [] [];
            lg = handleNon200 res url;
            os = ''Status '' @ show_int (code res) @ '' when getting '' @ url;
            pt = ptree_put ''error'' os pt
        in (Inr (Some pt), lg)
      else
        case decode (body res) of
          Inl e \<Rightarrow>
            (Inl (JsonParserError e),
             [''error reading result of URL:'' @ endl @ [CHR 0x09] @ url @ endl,
              ''response is:'' @ endl @ body res @ endl])
        | Inr pt \<Rightarrow> (Inr (Some pt), []))"

definition getPropertyTree :: "env \<Rightarrow> string \<Rightarrow> client \<Rightarrow> ((error + ptree option) \<times> log) \<times> client" where
  "getPropertyTree E url c =
     (case get E url c of (res, c') \<Rightarrow> (parsePtree (read_json E) res url, c'))"

definition postPropertyTree :: "env \<Rightarrow> string \<Rightarrow> string \<Rightarrow> client \<Rightarrow> ((error + ptree option) \<times> log) \<times> client" where
  "postPropertyTree E url dat c =
     (case post E url ''application/x-www-form-urlencoded'' dat c of
        (res, c') \<Rightarrow> (parsePtree (read_json E) res url, c'))"


section \<open>Notions used in the statements\<close>

text \<open>The number of bytes a sequence of read requests asks for in total.\<close>

definition requested :: "(size_t \<times> size_t) list \<Rightarrow> nat" where
  "requested reqs = sum_list (map (\<lambda>(s, m). unat (s * m)) reqs)"


text \<open>The data of the direct children, in order, each passed through the conversion.\<close>

definition child_values :: "(string \<Rightarrow> 'a option) \<Rightarrow> ptree \<Rightarrow> 'a option list" where
  "child_values tr pt = map (\<lambda>v. tr (pt_data (snd v))) (pt_children pt)"


text \<open>
  The four verb methods under one name, so that a statement can speak of every verb.
\<close>

datatype request =
    GET string
  | POST string string string
  | PUT string string string
  | DELETE string

fun execute :: "env \<Rightarrow> request \<Rightarrow> client \<Rightarrow> response \<times> client" where
  "execute E (GET url) c = get E url c"
| "execute E (POST url ctype dat) c = post E url ctype dat c"
| "execute E (PUT url ctype dat) c = put E url ctype dat c"
| "execute E (DELETE url) c = del E url c"

text \<open>
  The options a verb method sets before it performs the request, in the order of the
  source: the error buffer, the credentials when there are any, the user agent and the
  URL, the options of the verb, the two response callbacks, and the headers.
\<close>

definition auth_opts :: "client \<Rightarrow> curl_option list" where
  "auth_opts c =
     (if user_pass c = [] then []
      else [CURLOPT_HTTPAUTH CURLAUTH_BASIC, CURLOPT_USERPWD (c_string (user_pass c))])"

fun verb_opts :: "request \<Rightarrow> curl_option list \<times> curl_option list" where
  "verb_opts (GET url) = ([], [])"
| "verb_opts (POST url ctype dat) =
     ([CURLOPT_POST 1, CURLOPT_POSTFIELDS dat, CURLOPT_POSTFIELDSIZE (of_nat (length dat))],
      [CURLOPT_HTTPHEADER [c_string (''Content-Type: '' @ ctype)]])"
| "verb_opts (PUT url ctype dat) =
     ([CURLOPT_PUT 1, CURLOPT_UPLOAD 1, CURLOPT_READFUNCTION, CURLOPT_READDATA],
      [CURLOPT_INFILESIZE (of_nat (length dat)),
       CURLOPT_HTTPHEADER [c_string (''Content-Type: '' @ ctype)]])"
| "verb_opts (DELETE url) = ([CURLOPT_CUSTOMREQUEST ''DELETE''], [])"

fun url_of :: "request \<Rightarrow> string" where
  "url_of (GET url) = url"
| "url_of (POST url ctype dat) = url"
| "url_of (PUT url ctype dat) = url"
| "url_of (DELETE url) = url"

fun upload_of :: "request \<Rightarrow> upload_object option" where
  "upload_of (PUT url ctype dat) = Some \<lparr>data = dat @ [CHR 0x00], length' = of_nat (length dat)\<rparr>"
| "upload_of _ = None"

definition setup_opts :: "request \<Rightarrow> client \<Rightarrow> curl_option list" where
  "setup_opts rq c =
     CURLOPT_ERRORBUFFER # auth_opts c
     @ [CURLOPT_USERAGENT user_agent, CURLOPT_URL (c_string (url_of rq))]
     @ fst (verb_opts rq)
     @ [CURLOPT_WRITEFUNCTION, CURLOPT_WRITEDATA, CURLOPT_HEADERFUNCTION, CURLOPT_HEADERDATA]
     @ snd (verb_opts rq)"

text \<open>
  What the transport does with the request of a verb method, the text it leaves in the
  error buffer read as a C string (the buffer holds \<open>CURL_ERROR_SIZE\<close> bytes, the last
  of them overwritten with NUL), and the response as the callbacks have filled it.
\<close>

definition performed :: "env \<Rightarrow> request \<Rightarrow> client \<Rightarrow> curl_outcome" where
  "performed E rq c = curl_easy_perform E (curl c @ map Setopt (setup_opts rq c))"

definition error_detail :: "curl_outcome \<Rightarrow> string" where
  "error_detail outcome = c_string (take (CURL_ERROR_SIZE - 1) (error_text outcome))"

definition collected :: "env \<Rightarrow> request \<Rightarrow> client \<Rightarrow> response" where
  "collected E rq c =
     fst (run_callbacks (callbacks (performed E rq c))
            (\<lparr>code = uninitialized_int E, body = [], headers = Map.empty\<rparr>, upload_of rq))"

text \<open>
  The options in force on a handle after a sequence of calls: every option set since
  the last reset. The configuration of a request is what is in force when it is
  performed.
\<close>

fun apply_call :: "curl_option list \<Rightarrow> curl_call \<Rightarrow> curl_option list" where
  "apply_call os (Setopt opt) = os @ [opt]"
| "apply_call os Perform = os"
| "apply_call os Getinfo_RESPONSE_CODE = os"
| "apply_call os Reset = []"

definition pending :: "curl_call list \<Rightarrow> curl_option list" where
  "pending h = foldl apply_call [] h"

definition request_config :: "request \<Rightarrow> client \<Rightarrow> curl_option list" where
  "request_config rq c = pending (curl c @ map Setopt (setup_opts rq c))"

text \<open>
  Several verb calls in a row on one client.
\<close>

fun run_requests :: "env \<Rightarrow> request list \<Rightarrow> client \<Rightarrow> client" where
  "run_requests E [] c = c"
| "run_requests E (rq # rqs) c = run_requests E rqs (snd (execute E rq c))"

text \<open>
  The tree and the log lines the JSON layer produces, and the options that carry
  credentials.
\<close>

definition status_tree :: "int \<Rightarrow> string \<Rightarrow> ptree" where
  "status_tree n url =
     Node [] [(''error'', Node (''Status '' @ show_int n @ '' when getting '' @ url) [])]"

definition decode_log :: "string \<Rightarrow> string \<Rightarrow> log" where
  "decode_log url b =
     [''error reading result of URL:'' @ endl @ [CHR 0x09] @ url @ endl,
      ''response is:'' @ endl @ b @ endl]"

definition is_auth_opt :: "curl_option \<Rightarrow> bool" where
  "is_auth_opt opt = (case opt of CURLOPT_HTTPAUTH a \<Rightarrow> True | CURLOPT_USERPWD s \<Rightarrow> True | _ \<Rightarrow> False)"

text \<open>
  A sample world for worked examples: a server that answers \<^verbatim>\<open>/ok\<close> with a JSON
  array, \<^verbatim>\<open>/bad\<close> with a page that is not JSON, \<^verbatim>\<open>/500\<close> with a server error, and
  cannot be reached at any other address.
\<close>

definition sample_perform :: "curl_call list \<Rightarrow> curl_outcome" where
  "sample_perform h =
     (if CURLOPT_URL ''http://h/ok'' \<in> set (pending h) then
        \<lparr>curlcode = 0,
         callbacks = [Header_cb (''Content-Type: application/json'' @ [CHR 0x0D, CHR 0x0A]) 1 32,
                      Write_cb ''[7]'' 1 3],
         error_text = [], http_code = 200\<rparr>
      else if CURLOPT_URL ''http://h/bad'' \<in> set (pending h) then
        \<lparr>curlcode = 0, callbacks = [Write_cb ''<html>'' 1 6], error_text = [], http_code = 200\<rparr>
      else if CURLOPT_URL ''http://h/500'' \<in> set (pending h) then
        \<lparr>curlcode = 0, callbacks = [Write_cb ''oops'' 1 4], error_text = [], http_code = 500\<rparr>
      else
        \<lparr>curlcode = 28, callbacks = [Write_cb ''part'' 1 4],
         error_text = ''Connection timed out'', http_code = 0\<rparr>)"

definition sample_env :: env where
  "sample_env =
     \<lparr>curl_easy_init = True,
      curl_easy_perform = sample_perform,
      curl_easy_strerror = (\<lambda>n. if n = 28 then ''Timeout was reached'' else ''Unknown error''),
      read_json = (\<lambda>s. if s = ''[7]'' then Inr (Node [] [([], Node ''7'' [])])
                        else Inl ''expected value''),
      uninitialized_int = 12345\<rparr>"


section \<open>Properties of the tree utilities\<close>

lemma walk_path_Nil: "walk_path [] t = Some t"
  by (simp add: walk_path.simps)

lemma walk_path_single:
  assumes "name \<noteq> []" and "CHR ''.'' \<notin> set name"
  shows "walk_path name t = map_of (pt_children t) name"
proof -
  from assms(2) have tw: "takeWhile (\<lambda>c. c \<noteq> CHR ''.'') name = name"
    by (induction name) auto
  from assms(2) have dw: "dropWhile (\<lambda>c. c \<noteq> CHR ''.'') name = []"
    by (induction name) auto
  show ?thesis
    using assms(1)
    by (subst walk_path.simps) (simp add: tw dw walk_path_Nil split: option.splits)
qed

lemma ptreeHasChild_single:
  assumes "name \<noteq> []" and "CHR ''.'' \<notin> set name"
  shows "ptreeHasChild (Some t) name = Inr (name \<in> child_keys t)"
  using walk_path_single [OF assms, of t]
  by (simp add: ptreeHasChild_def get_child_optional_def child_keys_def map_of_eq_None_iff)

lemma get_child_value_single:
  assumes "name \<noteq> []" and "CHR ''.'' \<notin> set name" and "name \<in> child_keys t"
  shows "get_child_value (Some t) name = Inr (child_datum t name)"
proof -
  from assms(3) obtain c where "map_of (pt_children t) name = Some c"
    by (cases "map_of (pt_children t) name")
       (simp_all add: child_keys_def map_of_eq_None_iff)
  then show ?thesis
    using walk_path_single [OF assms(1,2), of t]
    by (simp add: get_child_value_def child_datum_def)
qed

lemma has_info: "ptreeHasChild (Some t) ''info'' = Inr (''info'' \<in> child_keys t)"
  by (rule ptreeHasChild_single) simp_all
lemma has_traceback:
  "ptreeHasChild (Some t) ''traceback'' = Inr (''traceback'' \<in> child_keys t)"
  by (rule ptreeHasChild_single) simp_all
lemma has_djerror: "ptreeHasChild (Some t) ''djerror'' = Inr (''djerror'' \<in> child_keys t)"
  by (rule ptreeHasChild_single) simp_all
lemma has_error: "ptreeHasChild (Some t) ''error'' = Inr (''error'' \<in> child_keys t)"
  by (rule ptreeHasChild_single) simp_all

lemma val_info:
  "''info'' \<in> child_keys t \<Longrightarrow> get_child_value (Some t) ''info'' = Inr (child_datum t ''info'')"
  by (rule get_child_value_single) simp_all
lemma val_traceback:
  "''traceback'' \<in> child_keys t \<Longrightarrow>
   get_child_value (Some t) ''traceback'' = Inr (child_datum t ''traceback'')"
  by (rule get_child_value_single) simp_all
lemma val_djerror:
  "''djerror'' \<in> child_keys t \<Longrightarrow>
   get_child_value (Some t) ''djerror'' = Inr (child_datum t ''djerror'')"
  by (rule get_child_value_single) simp_all
lemma val_error:
  "''error'' \<in> child_keys t \<Longrightarrow>
   get_child_value (Some t) ''error'' = Inr (child_datum t ''error'')"
  by (rule get_child_value_single) simp_all

lemma checkDjangoError_Some:
  "checkDjangoError (Some t) =
     (if ''info'' \<in> child_keys t \<and> ''traceback'' \<in> child_keys t then
        (Inr True, [''Django error: '' @ child_datum t ''info'' @ endl,
                    ''    traceback: '' @ child_datum t ''traceback'' @ endl])
      else if ''djerror'' \<in> child_keys t then
        (Inr True, [''Django error: '' @ child_datum t ''djerror'' @ endl])
      else if ''error'' \<in> child_keys t then
        (Inr True, [''HTTP Error: '' @ child_datum t ''error'' @ endl])
      else (Inr False, []))"
  unfolding checkDjangoError_def
  by (simp add: has_info has_traceback has_djerror has_error and_also_def
        val_info val_traceback val_djerror val_error)

text \<open>
  Claim C4. \<^verbatim>\<open>checkDjangoError\<close> returns true for a null tree. For a tree it looks at
  the direct children in a fixed order and returns true at the first shape found: both
  \<open>info\<close> and \<open>traceback\<close>; then \<open>djerror\<close>; then \<open>error\<close>. The message logged tells
  which branch was taken. With none of the shapes it returns false and logs nothing.
\<close>

theorem checkDjangoError_priority:
  "checkDjangoError None = (Inr True, [''JSON Error: null property tree'' @ endl])
   \<and> (''info'' \<in> child_keys t \<and> ''traceback'' \<in> child_keys t \<longrightarrow>
        checkDjangoError (Some t) =
          (Inr True, [''Django error: '' @ child_datum t ''info'' @ endl,
                      ''    traceback: '' @ child_datum t ''traceback'' @ endl]))
   \<and> (\<not> (''info'' \<in> child_keys t \<and> ''traceback'' \<in> child_keys t)
        \<and> ''djerror'' \<in> child_keys t \<longrightarrow>
        checkDjangoError (Some t) =
          (Inr True, [''Django error: '' @ child_datum t ''djerror'' @ endl]))
   \<and> (\<not> (''info'' \<in> child_keys t \<and> ''traceback'' \<in> child_keys t)
        \<and> ''djerror'' \<notin> child_keys t \<and> ''error'' \<in> child_keys t \<longrightarrow>
        checkDjangoError (Some t) =
          (Inr True, [''HTTP Error: '' @ child_datum t ''error'' @ endl]))
   \<and> (\<not> (''info'' \<in> child_keys t \<and> ''traceback'' \<in> child_keys t)
        \<and> ''djerror'' \<notin> child_keys t \<and> ''error'' \<notin> child_keys t \<longrightarrow>
        checkDjangoError (Some t) = (Inr False, []))"
  by (simp add: checkDjangoError_Some) (simp add: checkDjangoError_def)

text \<open>
  The order at work: a tree holding all four keys is reported through \<open>info\<close> and
  \<open>traceback\<close>, one holding \<open>error\<close> before \<open>djerror\<close> through \<open>djerror\<close>.
\<close>

theorem checkDjangoError_priority_witness:
  "checkDjangoError
     (Some (Node [] [(''djerror'', Node ''x'' []), (''info'', Node ''boom'' []),
                     (''error'', Node ''e'' []), (''traceback'', Node ''tb'' [])])) =
   (Inr True, [''Django error: boom'' @ endl, ''    traceback: tb'' @ endl])
   \<and> checkDjangoError (Some (Node [] [(''error'', Node ''e'' []), (''djerror'', Node ''x'' []), (''info'', Node ''boom'' [])])) =
   (Inr True, [''Django error: x'' @ endl])
   \<and> checkDjangoError (Some (Node [] [(''traceback'', Node ''tb'' []), (''error'', Node ''e'' [])])) =
   (Inr True, [''HTTP Error: e'' @ endl])
   \<and> checkDjangoError (Some (Node ''7'' [(''a'', Node ''1'' [])])) = (Inr False, [])"
  using checkDjangoError_priority
          [of "Node [] [(''djerror'', Node ''x'' []), (''info'', Node ''boom'' []),
                        (''error'', Node ''e'' []), (''traceback'', Node ''tb'' [])]"]
        checkDjangoError_priority
          [of "Node [] [(''error'', Node ''e'' []), (''djerror'', Node ''x'' []), (''info'', Node ''boom'' [])]"]
        checkDjangoError_priority
          [of "Node [] [(''traceback'', Node ''tb'' []), (''error'', Node ''e'' [])]"]
        checkDjangoError_priority [of "Node ''7'' [(''a'', Node ''1'' [])]"]
  by (simp add: child_keys_def child_datum_def)

text \<open>
  Claim C6, amended. The name is read as a path with separator \<^verbatim>\<open>'.'\<close>. For a
  non-null tree and a name that is not empty and holds no \<^verbatim>\<open>'.'\<close>,
  \<^verbatim>\<open>ptreeHasChild\<close> returns true exactly when the name is the key of a direct child.
\<close>

theorem ptreeHasChild_direct_child:
  "name \<noteq> [] \<Longrightarrow> CHR ''.'' \<notin> set name \<Longrightarrow>
   ptreeHasChild (Some t) name = Inr (name \<in> child_keys t)"
  by (rule ptreeHasChild_single)

text \<open>
  A tree with children \<open>a\<close> and \<open>b\<close>: \<open>b\<close> is found, \<open>c\<close> is not.
\<close>

theorem ptreeHasChild_direct_child_witness:
  "ptreeHasChild (Some (Node [] [(''a'', Node ''1'' []), (''b'', Node [] [])])) ''b'' = Inr True
   \<and> ptreeHasChild (Some (Node [] [(''a'', Node ''1'' []), (''b'', Node [] [])])) ''c'' = Inr False"
  using ptreeHasChild_direct_child [of "''b''" "Node [] [(''a'', Node ''1'' []), (''b'', Node [] [])]"]
        ptreeHasChild_direct_child [of "''c''" "Node [] [(''a'', Node ''1'' []), (''b'', Node [] [])]"]
  by (simp add: child_keys_def)

text \<open>
  Claim C6 as stated fails on the tree decoded from \<^verbatim>\<open>{"a.b": 1}\<close>: the key \<open>a.b\<close> names
  a direct child, but the lookup walks to a child \<open>a\<close>, finds none and reports false.
\<close>

theorem ptreeHasChild_dotted_key_counterexample:
  "\<not> (ptreeHasChild (Some (Node [] [(''a.b'', Node ''1'' [])])) ''a.b'' = Inr True
      \<longleftrightarrow> ''a.b'' \<in> child_keys (Node [] [(''a.b'', Node ''1'' [])]))"
  by (simp add: ptreeHasChild_def get_child_optional_def child_keys_def walk_path.simps)

text \<open>
  Claim C10. \<^verbatim>\<open>ptreeHasChild\<close> dereferences its pointer without a test: on a null
  tree the dereference is reached, whatever the name, and on a non-null tree the call
  returns a truth value. \<^verbatim>\<open>checkDjangoError\<close> tests for null first: it returns true
  on a null tree and never faults.
\<close>

theorem ptreeHasChild_null_dereference:
  "ptreeHasChild None name = Inl NullDereference
   \<and> (\<exists>b. ptreeHasChild (Some t) name = Inr b)
   \<and> checkDjangoError None = (Inr True, [''JSON Error: null property tree'' @ endl])
   \<and> (\<exists>b. fst (checkDjangoError pt) = Inr b)"
proof -
  have "\<exists>b. fst (checkDjangoError pt) = Inr b"
  proof (cases pt)
    case None
    then show ?thesis by (auto simp: checkDjangoError_def)
  next
    case (Some t)
    then show ?thesis by (auto simp: checkDjangoError_Some)
  qed
  moreover have "ptreeHasChild None name = Inl NullDereference"
    by (simp add: ptreeHasChild_def get_child_optional_def)
  moreover have "\<exists>b. ptreeHasChild (Some t) name = Inr b"
    by (auto simp: ptreeHasChild_def get_child_optional_def)
  moreover have "checkDjangoError None = (Inr True, [''JSON Error: null property tree'' @ endl])"
    by (simp add: checkDjangoError_def)
  ultimately show ?thesis by blast
qed

section \<open>Properties of the callbacks\<close>

lemma find_first_of_None: "find_first_of c s = None \<longleftrightarrow> c \<notin> set s"
  by (induction s) auto

lemma find_first_of_split:
  "c \<notin> set name \<Longrightarrow> find_first_of c (name @ c # v) = Some (length name)"
  by (induction name) auto

text \<open>
  Claim C5. The header callback reads the first \<open>size * nmemb\<close> bytes as the line.
  A line with a colon is cut at its first colon, and the trimmed left part is stored with
  the trimmed right part as its value, colons in the value included, in place of any value
  the name had. A line with no colon is dropped when it trims to nothing, and otherwise
  stored, trimmed, with the value \<open>present\<close>. The callback always returns
  \<open>size * nmemb\<close>.
\<close>

theorem header_callback_line:
  assumes "line = take (unat (size' * nmemb)) dat"
  shows "fst (header_callback dat size' nmemb r) = size' * nmemb
    \<and> (\<forall>name v. line = name @ CHR '':'' # v \<and> CHR '':'' \<notin> set name \<longrightarrow>
          snd (header_callback dat size' nmemb r) =
            r\<lparr>headers := (headers r)(trim name \<mapsto> trim v)\<rparr>)
    \<and> (CHR '':'' \<notin> set line \<and> trim line = [] \<longrightarrow>
          snd (header_callback dat size' nmemb r) = r)
    \<and> (CHR '':'' \<notin> set line \<and> trim line \<noteq> [] \<longrightarrow>
          snd (header_callback dat size' nmemb r) =
            r\<lparr>headers := (headers r)(trim line \<mapsto> ''present'')\<rparr>)"
proof -
  have ret: "fst (header_callback dat size' nmemb r) = size' * nmemb"
    by (simp add: header_callback_def Let_def split: option.splits)
  have colon: "snd (header_callback dat size' nmemb r) =
                 r\<lparr>headers := (headers r)(trim name \<mapsto> trim v)\<rparr>"
    if "line = name @ CHR '':'' # v" and "CHR '':'' \<notin> set name" for name v
  proof -
    from that assms have "find_first_of CHR '':'' (take (unat (size' * nmemb)) dat) = Some (length name)"
      by (simp add: find_first_of_split)
    moreover from that assms have "take (unat (size' * nmemb)) dat = name @ CHR '':'' # v"
      by simp
    ultimately show ?thesis
      by (simp add: header_callback_def Let_def)
  qed
  have none: "find_first_of CHR '':'' (take (unat (size' * nmemb)) dat) = None"
    if "CHR '':'' \<notin> set line"
    using that assms by (simp add: find_first_of_None)
  have blank: "snd (header_callback dat size' nmemb r) = r"
    if "CHR '':'' \<notin> set line" and "trim line = []"
    using none [OF that(1)] that(2) assms by (simp add: header_callback_def Let_def)
  have bare: "snd (header_callback dat size' nmemb r) =
                r\<lparr>headers := (headers r)(trim line \<mapsto> ''present'')\<rparr>"
    if "CHR '':'' \<notin> set line" and "trim line \<noteq> []"
    using none [OF that(1)] that(2) assms by (simp add: header_callback_def Let_def)
  from ret colon blank bare show ?thesis by blast
qed

text \<open>
  A header whose value holds colons and which replaces an earlier value, read from a
  buffer longer than the line; a blank line; a status line.
\<close>

theorem header_callback_line_witness:
  "header_callback (''Location : http://h:80/x'' @ [CHR 0x0D, CHR 0x0A] @ ''junk'') 1 26
     \<lparr>code = 0, body = [], headers = [''Location'' \<mapsto> ''old'']\<rparr> =
   (26, \<lparr>code = 0, body = [], headers = [''Location'' \<mapsto> ''http://h:80/x'']\<rparr>)
  \<and> header_callback [CHR 0x0D, CHR 0x0A] 2 1 \<lparr>code = 0, body = [], headers = Map.empty\<rparr> =
   (2, \<lparr>code = 0, body = [], headers = Map.empty\<rparr>)
  \<and> header_callback (''HTTP/1.1 200 OK'' @ [CHR 0x0D, CHR 0x0A]) 1 17
       \<lparr>code = 0, body = [], headers = Map.empty\<rparr> =
   (17, \<lparr>code = 0, body = [], headers = [''HTTP/1.1 200 OK'' \<mapsto> ''present'']\<rparr>)"
proof -
  let ?r = "\<lparr>code = 0, body = [], headers = [''Location'' \<mapsto> ''old'']\<rparr>"
  let ?e = "\<lparr>code = 0, body = [], headers = Map.empty\<rparr>"
  let ?d1 = "''Location : http://h:80/x'' @ [CHR 0x0D, CHR 0x0A] @ ''junk''"
  let ?l1 = "''Location : http://h:80/x'' @ [CHR 0x0D, CHR 0x0A]"
  let ?l2 = "[CHR 0x0D, CHR 0x0A]"
  let ?l3 = "''HTTP/1.1 200 OK'' @ [CHR 0x0D, CHR 0x0A]"
  have t1: "?l1 = take (unat ((1::size_t) * 26)) ?d1" by simp
  have t2: "?l2 = take (unat ((2::size_t) * 1)) ?l2" by simp
  have t3: "?l3 = take (unat ((1::size_t) * 17)) ?l3" by simp
  note h1 = header_callback_line [OF t1, of ?r]
  note h2 = header_callback_line [OF t2, of ?e]
  note h3 = header_callback_line [OF t3, of ?e]
  have a: "header_callback ?d1 1 26 ?r =
             (26, \<lparr>code = 0, body = [], headers = [''Location'' \<mapsto> ''http://h:80/x'']\<rparr>)"
    using h1 [THEN conjunct1]
      h1 [THEN conjunct2, THEN conjunct1, rule_format,
          of "''Location ''" "'' http://h:80/x'' @ [CHR 0x0D, CHR 0x0A]"]
    by (simp add: trim_def ltrim_def rtrim_def isspace_def prod_eq_iff)
  have b: "header_callback ?l2 2 1 ?e = (2, ?e)"
    using h2 [THEN conjunct1] h2 [THEN conjunct2, THEN conjunct2, THEN conjunct1]
    by (simp add: trim_def ltrim_def rtrim_def isspace_def prod_eq_iff)
  have c: "header_callback ?l3 1 17 ?e =
             (17, \<lparr>code = 0, body = [], headers = [''HTTP/1.1 200 OK'' \<mapsto> ''present'']\<rparr>)"
    using h3 [THEN conjunct1] h3 [THEN conjunct2, THEN conjunct2, THEN conjunct2]
    by (simp add: trim_def ltrim_def rtrim_def isspace_def prod_eq_iff)
  from a b c show ?thesis by simp
qed

lemma read_callback_step:
  "read_callback size' nmemb u =
     (min (size' * nmemb) (length' u),
      take (unat (min (size' * nmemb) (length' u))) (data u),
      u\<lparr>length' := length' u - min (size' * nmemb) (length' u),
        data := drop (unat (min (size' * nmemb) (length' u))) (data u)\<rparr>)"
  by (auto simp: read_callback_def Let_def min_def)

lemma unat_min_word: "unat (min a b) = min (unat a) (unat b)"
  for a b :: "'a::len word"
  by (simp add: min_def word_le_nat_alt)

lemma unat_sub_min_word: "unat (l - min n l) = unat l - unat (min n l)"
  for l n :: "'a::len word"
  by (rule unat_sub) simp

lemma read_all_prefix:
  "unat (length' u) \<le> length (data u) \<Longrightarrow>
   fst (read_all reqs u) = take (min (requested reqs) (unat (length' u))) (data u)
   \<and> unat (length' (snd (read_all reqs u))) = unat (length' u) - requested reqs"
proof (induction reqs arbitrary: u)
  case Nil
  then show ?case by (simp add: requested_def)
next
  case (Cons rq reqs)
  obtain s m where rq: "rq = (s, m)" by (cases rq)
  let ?n = "min (s * m) (length' u)"
  let ?u' = "u\<lparr>length' := length' u - ?n, data := drop (unat ?n) (data u)\<rparr>"
  have k: "unat ?n = min (unat (s * m)) (unat (length' u))" by (rule unat_min_word)
  have len': "unat (length' ?u') = unat (length' u) - unat ?n"
    by (simp add: unat_sub_min_word)
  from Cons.prems have inv: "unat (length' ?u') \<le> length (data ?u')"
    using len' by simp
  note IH = Cons.IH [OF inv]
  have req: "requested (rq # reqs) = unat (s * m) + requested reqs"
    by (simp add: requested_def rq)
  have step: "read_all (rq # reqs) u =
      (take (unat ?n) (data u) @ fst (read_all reqs ?u'), snd (read_all reqs ?u'))"
    by (simp add: rq read_callback_step split: prod.splits)
  have "take (unat ?n) (data u) @ take (min (requested reqs) (unat (length' ?u'))) (data ?u')
        = take (min (requested (rq # reqs)) (unat (length' u))) (data u)"
  proof -
    have "min (requested (rq # reqs)) (unat (length' u))
          = unat ?n + min (requested reqs) (unat (length' u) - unat ?n)"
      unfolding req k by (auto simp: min_def)
    then show ?thesis
      by (simp add: unat_sub_min_word take_add)
  qed
  moreover have "unat (length' u) - unat ?n - requested reqs
                 = unat (length' u) - requested (rq # reqs)"
    unfolding req k by (auto simp: min_def)
  ultimately show ?case
    using IH by (simp add: step unat_sub_min_word)
qed

text \<open>
  Claim C7. On a cursor with at least \<open>length\<close> readable bytes, one invocation asking for
  \<open>N = size * nmemb\<close> bytes hands over the first \<open>min N length\<close> bytes at the cursor,
  advances the cursor and lowers the remaining length by that amount, and returns it;
  the result is 0 once nothing remains. Any sequence of requests hands over, in order, a
  prefix of the body: as many bytes as were asked for in total, and never more than the
  body has. Once at least \<open>length\<close> bytes have been asked for, the whole body has been
  handed over and nothing remains.
\<close>

theorem read_callback_cursor:
  assumes "unat (length' u) \<le> length (data u)"
  shows "(case read_callback size' nmemb u of
            (n, bytes, u') \<Rightarrow>
              n = min (size' * nmemb) (length' u)
              \<and> bytes = take (unat n) (data u) \<and> length bytes = unat n
              \<and> data u' = drop (unat n) (data u)
              \<and> length' u' = length' u - n
              \<and> unat (length' u') = unat (length' u) - unat n
              \<and> unat (length' u') \<le> length (data u'))
    \<and> (length' u = 0 \<longrightarrow> fst (read_callback size' nmemb u) = 0)
    \<and> fst (read_all reqs u) = take (min (requested reqs) (unat (length' u))) (data u)
    \<and> (unat (length' u) \<le> requested reqs \<longrightarrow>
          fst (read_all reqs u) = take (unat (length' u)) (data u)
          \<and> length (fst (read_all reqs u)) = unat (length' u)
          \<and> length' (snd (read_all reqs u)) = 0)"
proof -
  let ?n = "min (size' * nmemb) (length' u)"
  have le: "unat ?n \<le> unat (length' u)" by (simp add: unat_min_word)
  have one: "case read_callback size' nmemb u of
            (n, bytes, u') \<Rightarrow>
              n = min (size' * nmemb) (length' u)
              \<and> bytes = take (unat n) (data u) \<and> length bytes = unat n
              \<and> data u' = drop (unat n) (data u)
              \<and> length' u' = length' u - n
              \<and> unat (length' u') = unat (length' u) - unat n
              \<and> unat (length' u') \<le> length (data u')"
    using assms le by (simp add: read_callback_step unat_sub_min_word)
  have zero: "length' u = 0 \<longrightarrow> fst (read_callback size' nmemb u) = 0"
    by (simp add: read_callback_step)
  note all = read_all_prefix [OF assms, of reqs]
  have full: "fst (read_all reqs u) = take (unat (length' u)) (data u)
          \<and> length (fst (read_all reqs u)) = unat (length' u)
          \<and> length' (snd (read_all reqs u)) = 0" if "unat (length' u) \<le> requested reqs"
  proof -
    from that have m: "min (requested reqs) (unat (length' u)) = unat (length' u)" by simp
    from all that have "unat (length' (snd (read_all reqs u))) = 0" by simp
    then have "length' (snd (read_all reqs u)) = 0" by (simp add: unat_eq_0)
    with all m assms show ?thesis by simp
  qed
  from one zero all full show ?thesis by blast
qed

text \<open>
  An eleven-byte body read in requests of 4, 4, 0 and 100 bytes, and a request on an
  exhausted cursor.
\<close>

theorem read_callback_cursor_witness:
  "read_callback 1 4 \<lparr>data = ''hello world'' @ [CHR 0x00], length' = 11\<rparr> =
     (4, ''hell'', \<lparr>data = ''o world'' @ [CHR 0x00], length' = 7\<rparr>)
   \<and> fst (read_callback 8 16 \<lparr>data = [CHR 0x00], length' = 0\<rparr>) = 0
   \<and> fst (read_all [(1, 4), (2, 2), (1, 0), (1, 100)]
             \<lparr>data = ''hello world'' @ [CHR 0x00], length' = 11\<rparr>) = ''hello world''"
proof -
  let ?u = "\<lparr>data = ''hello world'' @ [CHR 0x00], length' = 11\<rparr>"
  let ?z = "\<lparr>data = [CHR 0x00], length' = 0\<rparr>"
  have inv: "unat (length' ?u) \<le> length (data ?u)" by simp
  have invz: "unat (length' ?z) \<le> length (data ?z)" by simp
  have rq: "requested [(1, 4), (2, 2), (1, 0), (1, 100)] = 108"
    by (simp add: requested_def)
  note a = read_callback_cursor [OF inv, of 1 4 "[(1, 4), (2, 2), (1, 0), (1, 100)]"]
  note z = read_callback_cursor [OF invz, of 8 16 "[]"]
  have 1: "read_callback 1 4 ?u = (4, ''hell'', \<lparr>data = ''o world'' @ [CHR 0x00], length' = 7\<rparr>)"
    using a [THEN conjunct1] by (auto split: prod.splits)
  have 2: "fst (read_callback 8 16 ?z) = 0"
    using z [THEN conjunct2, THEN conjunct1] by simp
  have 3: "fst (read_all [(1, 4), (2, 2), (1, 0), (1, 100)] ?u) = ''hello world''"
    using a [THEN conjunct2, THEN conjunct2, THEN conjunct2] rq by simp
  from 1 2 3 show ?thesis by simp
qed

section \<open>Properties of \<open>ptreeVector\<close>\<close>

lemma ptreeVector_loop_ok:
  "map (\<lambda>v. tr (pt_data (snd v))) cs = map Some xs \<Longrightarrow>
   ptreeVector_loop tr cs (count, vect) = (Inr (count + of_nat (length xs)), vect @ xs)"
proof (induction cs arbitrary: xs count vect)
  case Nil
  then show ?case by simp
next
  case (Cons c cs)
  then obtain y ys where xs: "xs = y # ys" by (cases xs) auto
  with Cons.prems have hd: "tr (pt_data (snd c)) = Some y"
    and tl: "map (\<lambda>v. tr (pt_data (snd v))) cs = map Some ys" by auto
  show ?case
    using Cons.IH [OF tl, of "count + 1" "vect @ [y]"] hd
    by (simp add: xs add.assoc add.commute)
qed

lemma ptreeVector_loop_bad:
  "None \<in> set (map (\<lambda>v. tr (pt_data (snd v))) cs) \<Longrightarrow>
   fst (ptreeVector_loop tr cs (count, vect)) = Inl PtreeBadData"
proof (induction cs arbitrary: count vect)
  case Nil
  then show ?case by simp
next
  case (Cons c cs)
  show ?case
  proof (cases "tr (pt_data (snd c))")
    case None
    then show ?thesis by simp
  next
    case (Some y)
    with Cons.prems have "None \<in> set (map (\<lambda>v. tr (pt_data (snd v))) cs)" by auto
    from Cons.IH [OF this, of "count + 1" "vect @ [y]"] Some show ?thesis by simp
  qed
qed

text \<open>
  What \<^verbatim>\<open>ptreeVector\<close> does on any tree. When every direct child converts, it appends
  the converted values of all direct children, in the order of the children, and as many
  elements as there are children; the count it returns is the number of children modulo
  \<open>2^32\<close>, hence that number for a tree with fewer than \<open>2^32\<close> children. When some
  child does not convert, the call ends with the library's failure.
\<close>

theorem ptreeVector_appends:
  "(child_values tr pt = map Some xs \<longrightarrow>
      snd (ptreeVector tr pt vect) = vect @ xs
      \<and> length xs = length (pt_children pt)
      \<and> fst (ptreeVector tr pt vect) = Inr (of_nat (length xs))
      \<and> (length xs < 2 ^ 32 \<longrightarrow>
           (\<exists>n. fst (ptreeVector tr pt vect) = Inr n \<and> unat n = length (pt_children pt))))
   \<and> (None \<in> set (child_values tr pt) \<longrightarrow> fst (ptreeVector tr pt vect) = Inl PtreeBadData)"
proof -
  have ok: "snd (ptreeVector tr pt vect) = vect @ xs
      \<and> length xs = length (pt_children pt)
      \<and> fst (ptreeVector tr pt vect) = Inr (of_nat (length xs))
      \<and> (length xs < 2 ^ 32 \<longrightarrow>
           (\<exists>n. fst (ptreeVector tr pt vect) = Inr n \<and> unat n = length (pt_children pt)))"
    if h: "child_values tr pt = map Some xs"
  proof -
    from h have len: "length xs = length (pt_children pt)"
      unfolding child_values_def by (metis length_map)
    from h have r: "ptreeVector tr pt vect = (Inr (of_nat (length xs)), vect @ xs)"
      unfolding child_values_def ptreeVector_def
      using ptreeVector_loop_ok [of tr "pt_children pt" xs 0 vect] by simp
    have "unat (of_nat (length xs) :: 32 word) = length (pt_children pt)"
      if "length xs < 2 ^ 32"
      using that len by (simp add: unat_of_nat)
    with r len show ?thesis by simp
  qed
  have bad: "fst (ptreeVector tr pt vect) = Inl PtreeBadData"
    if "None \<in> set (child_values tr pt)"
    using that ptreeVector_loop_bad [of tr "pt_children pt" 0 vect]
    unfolding child_values_def ptreeVector_def by simp
  from ok bad show ?thesis by blast
qed

text \<open>
  The array \<^verbatim>\<open>[1,2,3]\<close> appended to a vector holding 7, and an array whose second
  element does not convert.
\<close>

theorem ptreeVector_appends_witness:
  "ptreeVector (\<lambda>s. if s = ''1'' then Some 1 else if s = ''2'' then Some 2
                     else if s = ''3'' then Some (3::int) else None)
     (Node [] [([], Node ''1'' []), ([], Node ''2'' []), ([], Node ''3'' [])]) [7] =
   (Inr 3, [7, 1, 2, 3])
   \<and> fst (ptreeVector (\<lambda>s. if s = ''1'' then Some 1 else if s = ''2'' then Some 2
                     else if s = ''3'' then Some (3::int) else None)
     (Node [] [([], Node ''1'' []), ([], Node ''x'' []), ([], Node ''3'' [])]) [7]) =
   Inl PtreeBadData"
proof -
  let ?tr = "\<lambda>s. if s = ''1'' then Some 1 else if s = ''2'' then Some 2
                  else if s = ''3'' then Some (3::int) else None"
  let ?good = "Node [] [([], Node ''1'' []), ([], Node ''2'' []), ([], Node ''3'' [])]"
  let ?bad = "Node [] [([], Node ''1'' []), ([], Node ''x'' []), ([], Node ''3'' [])]"
  have g: "child_values ?tr ?good = map Some [1, 2, 3]"
    by (simp add: child_values_def)
  have b: "None \<in> set (child_values ?tr ?bad)"
    by (simp add: child_values_def)
  have 1: "ptreeVector ?tr ?good [7] = (Inr 3, [7, 1, 2, 3])"
    using g ptreeVector_appends [of ?tr ?good "[1, 2, 3]" "[7]", THEN conjunct1]
    by (simp add: prod_eq_iff)
  have 2: "fst (ptreeVector ?tr ?bad [7]) = Inl PtreeBadData"
    using b ptreeVector_appends [of ?tr ?bad "[]" "[7]", THEN conjunct2]
    by blast
  from 1 2 show ?thesis by simp
qed

text \<open>
  Claim C9. \<^verbatim>\<open>ptreeVector\<close> is to return the number of elements it appended, which is
  the number of direct children; the header documents the result so. The counter is an
  \<^verbatim>\<open>unsigned int\<close>, and the code breaks the claim on a tree with \<open>2^32\<close> children that
  all convert: every value is appended, and the count returned has wrapped around to 0.
\<close>

theorem ptreeVector_count_wraps:
  "fst (ptreeVector Some (Node [] (replicate (2 ^ 32) ([], Node ''1'' []))) []) = Inr 0
   \<and> snd (ptreeVector Some (Node [] (replicate (2 ^ 32) ([], Node ''1'' []))) [])
       = replicate (2 ^ 32) ''1''
   \<and> length (snd (ptreeVector Some (Node [] (replicate (2 ^ 32) ([], Node ''1'' []))) []))
       = 2 ^ 32
   \<and> length (pt_children (Node [] (replicate (2 ^ 32) ([], Node ''1'' [])))) = 2 ^ 32"
proof -
  have m: "\<And>k. map (\<lambda>v. Some (pt_data (snd v))) (replicate k ([], Node ''1'' []))
         = map Some (replicate k ''1'')"
    by (simp add: map_replicate)
  have r: "\<And>k. ptreeVector Some (Node [] (replicate k ([], Node ''1'' []))) []
          = (Inr (of_nat k), replicate k ''1'')"
    using ptreeVector_loop_ok [OF m, of _ 0 "[]"] by (simp add: ptreeVector_def)
  have z: "(of_nat (2 ^ 32) :: 32 word) = 0" by simp
  have l: "\<And>k (x::string). length (replicate k x) = k" by simp
  show ?thesis
    unfolding r fst_conv snd_conv ptree.sel l z by simp
qed


section \<open>Properties of the verb methods\<close>

lemma c_string_append_NUL: "c_string (xs @ CHR 0x00 # ys) = c_string (xs)"
  by (induction xs) (simp_all add: c_string_def)

lemma error_buffer_layout:
  assumes "0 < n"
  shows "(take n (t @ replicate n z))[n - 1 := z]
         = take (n - 1) t @ z # replicate (n - 1 - length (take (n - 1) t)) z"
proof (rule nth_equalityI)
  show "length ((take n (t @ replicate n z))[n - 1 := z])
        = length (take (n - 1) t @ z # replicate (n - 1 - length (take (n - 1) t)) z)"
    using assms by simp
next
  fix i assume "i < length ((take n (t @ replicate n z))[n - 1 := z])"
  then have i: "i < n" by simp
  show "(take n (t @ replicate n z))[n - 1 := z] ! i
        = (take (n - 1) t @ z # replicate (n - 1 - length (take (n - 1) t)) z) ! i"
  proof (cases "i < min (n - 1) (length t)")
    case True
    with i show ?thesis by (simp add: nth_append nth_list_update)
  next
    case False
    with i assms show ?thesis
      by (auto simp: nth_append nth_list_update nth_Cons split: nat.splits)
  qed
qed

lemma error_buffer_text:
  "c_string ((take CURL_ERROR_SIZE (t @ replicate CURL_ERROR_SIZE (CHR 0x00)))
               [CURL_ERROR_SIZE - 1 := CHR 0x00])
   = c_string (take (CURL_ERROR_SIZE - 1) t)"
proof -
  have "0 < CURL_ERROR_SIZE" by (simp add: CURL_ERROR_SIZE_def)
  from error_buffer_layout [OF this, of t "CHR 0x00"] show ?thesis
    by (simp only: c_string_append_NUL)
qed

lemma checkCurlError_eq:
  "checkCurlError strerror r
     (take CURL_ERROR_SIZE (t @ replicate CURL_ERROR_SIZE (CHR 0x00))) ret =
   (if r \<noteq> CURLE_OK then
      (True, ret\<lparr>body := ''Failed to query. CURL error: '' @ strerror r @ '' DETAIL: ''
                       @ c_string (take (CURL_ERROR_SIZE - 1) t),
                code := - 1\<rparr>)
    else (False, ret))"
  unfolding checkCurlError_def Let_def error_buffer_text
  by auto

lemma execute_eq:
  "execute E rq c =
     (let h = curl c @ map Setopt (setup_opts rq c);
          outcome = performed E rq c;
          ret = collected E rq c
      in if curlcode outcome \<noteq> CURLE_OK then
           (ret\<lparr>body := ''Failed to query. CURL error: ''
                     @ curl_easy_strerror E (curlcode outcome) @ '' DETAIL: ''
                     @ error_detail outcome,
                code := - 1\<rparr>,
            c\<lparr>curl := h @ [Perform, Reset]\<rparr>)
         else
           (ret\<lparr>code := static_cast_int (http_code outcome)\<rparr>,
            c\<lparr>curl := h @ [Perform, Getinfo_RESPONSE_CODE, Reset]\<rparr>))"
proof (cases rq)
  case (GET url)
  show ?thesis
    unfolding GET execute.simps get_def Let_def checkCurlError_eq
    by (simp add: setup_opts_def auth_opts_def performed_def collected_def error_detail_def)
next
  case (POST url ctype dat)
  show ?thesis
    unfolding POST execute.simps post_def Let_def checkCurlError_eq
    by (simp add: setup_opts_def auth_opts_def performed_def collected_def error_detail_def)
next
  case (PUT url ctype dat)
  show ?thesis
    unfolding PUT execute.simps put_def Let_def checkCurlError_eq
    by (simp add: setup_opts_def auth_opts_def performed_def collected_def error_detail_def)
next
  case (DELETE url)
  show ?thesis
    unfolding DELETE execute.simps del_def Let_def checkCurlError_eq
    by (simp add: setup_opts_def auth_opts_def performed_def collected_def error_detail_def)
qed

lemma foldl_apply_call_setopts: "foldl apply_call os (map Setopt xs) = os @ xs"
  by (induction xs arbitrary: os) simp_all

lemma pending_setopts: "pending (h @ map Setopt xs) = pending h @ xs"
  by (simp add: pending_def foldl_apply_call_setopts)

lemma pending_reset: "pending (h @ [Reset]) = []"
  by (simp add: pending_def)

lemma execute_user_pass: "user_pass (snd (execute E rq c)) = user_pass c"
  by (simp add: execute_eq Let_def)

lemma execute_pending: "pending (curl (snd (execute E rq c))) = []"
proof -
  have "\<exists>h. curl (snd (execute E rq c)) = h @ [Reset]"
    by (simp add: execute_eq Let_def)
  then show ?thesis by (auto simp: pending_reset)
qed

lemma execute_calls:
  "\<exists>rest. curl (snd (execute E rq c)) = curl c @ map Setopt (setup_opts rq c) @ Perform # rest"
  by (simp add: execute_eq Let_def)

lemma run_requests_user_pass: "user_pass (run_requests E rqs c) = user_pass c"
  by (induction rqs arbitrary: c) (simp_all add: execute_user_pass)

lemma run_requests_pending:
  "pending (curl c) = [] \<Longrightarrow> pending (curl (run_requests E rqs c)) = []"
  by (induction rqs arbitrary: c) (simp_all add: execute_pending)

lemma setup_opts_auth:
  "user_pass c \<noteq> [] \<Longrightarrow>
   CURLOPT_HTTPAUTH CURLAUTH_BASIC \<in> set (setup_opts rq c)
   \<and> CURLOPT_USERPWD (c_string (user_pass c)) \<in> set (setup_opts rq c)"
  by (simp add: setup_opts_def auth_opts_def)

lemma setup_opts_userpwd:
  "CURLOPT_USERPWD s \<in> set (setup_opts rq c) \<Longrightarrow> s = c_string (user_pass c)"
  by (cases rq) (auto simp: setup_opts_def auth_opts_def split: if_splits)

lemma c_string_no_NUL: "CHR 0x00 \<notin> set s \<Longrightarrow> c_string s = s"
  unfolding c_string_def by (induction s) auto

lemma setup_opts_no_auth:
  "user_pass c = [] \<Longrightarrow> list_all (\<lambda>opt. \<not> is_auth_opt opt) (setup_opts rq c)"
  by (cases rq) (simp_all add: setup_opts_def auth_opts_def is_auth_opt_def)

text \<open>
  Evaluations in the sample world.
\<close>

lemma show_500: "show_int 500 = ''500''"
  by (simp add: show_int_def decimal_digits.simps [of 500] decimal_digits.simps [of 50]
        decimal_digits.simps [of 5])

lemma show_minus_1: "show_int (- 1) = ''-1''"
  by (simp add: show_int_def decimal_digits.simps [of "Suc 0"])

lemma sample_outcome_500:
  "performed sample_env (GET ''http://h/500'') \<lparr>user_pass = [], curl = []\<rparr> =
     \<lparr>curlcode = 0, callbacks = [Write_cb ''oops'' 1 4], error_text = [], http_code = 500\<rparr>"
  by (simp add: performed_def sample_env_def sample_perform_def setup_opts_def auth_opts_def
        pending_def user_agent_def c_string_def)

lemma sample_get_500:
  "fst (get sample_env ''http://h/500'' \<lparr>user_pass = [], curl = []\<rparr>) =
     \<lparr>code = 500, body = ''oops'', headers = Map.empty\<rparr>"
  using execute_eq [of sample_env "GET ''http://h/500''" "\<lparr>user_pass = [], curl = []\<rparr>"]
  by (simp add: Let_def collected_def sample_outcome_500 CURLE_OK_def write_callback_def
        static_cast_int_def)

lemma sample_outcome_down:
  "performed sample_env (POST ''http://h/down'' ctype dat) \<lparr>user_pass = [], curl = []\<rparr> =
     \<lparr>curlcode = 28, callbacks = [Write_cb ''part'' 1 4],
      error_text = ''Connection timed out'', http_code = 0\<rparr>"
  by (simp add: performed_def sample_env_def sample_perform_def setup_opts_def auth_opts_def
        pending_def user_agent_def c_string_def)

lemma sample_post_down:
  "fst (post sample_env ''http://h/down'' ctype dat \<lparr>user_pass = [], curl = []\<rparr>) =
     \<lparr>code = - 1,
      body = ''Failed to query. CURL error: Timeout was reached DETAIL: Connection timed out'',
      headers = Map.empty\<rparr>"
  using execute_eq [of sample_env "POST ''http://h/down'' ctype dat" "\<lparr>user_pass = [], curl = []\<rparr>"]
  by (simp add: Let_def collected_def sample_outcome_down CURLE_OK_def write_callback_def
        error_detail_def c_string_def CURL_ERROR_SIZE_def)
     (simp add: sample_env_def)

lemma sample_outcome_ok:
  "performed sample_env (POST ''http://h/ok'' ctype dat) \<lparr>user_pass = [], curl = []\<rparr> =
     \<lparr>curlcode = 0,
      callbacks = [Header_cb (''Content-Type: application/json'' @ [CHR 0x0D, CHR 0x0A]) 1 32,
                   Write_cb ''[7]'' 1 3],
      error_text = [], http_code = 200\<rparr>"
  by (simp add: performed_def sample_env_def sample_perform_def setup_opts_def auth_opts_def
        pending_def user_agent_def c_string_def)

lemma sample_post_ok:
  "fst (post sample_env ''http://h/ok'' ctype dat \<lparr>user_pass = [], curl = []\<rparr>) =
     \<lparr>code = 200, body = ''[7]'', headers = [''Content-Type'' \<mapsto> ''application/json'']\<rparr>"
  using execute_eq [of sample_env "POST ''http://h/ok'' ctype dat" "\<lparr>user_pass = [], curl = []\<rparr>"]
  by (simp add: Let_def collected_def sample_outcome_ok CURLE_OK_def write_callback_def
        header_callback_def static_cast_int_def trim_def ltrim_def rtrim_def isspace_def)

lemma sample_outcome_bad:
  "performed sample_env (GET ''http://h/bad'') \<lparr>user_pass = [], curl = []\<rparr> =
     \<lparr>curlcode = 0, callbacks = [Write_cb ''<html>'' 1 6], error_text = [], http_code = 200\<rparr>"
  by (simp add: performed_def sample_env_def sample_perform_def setup_opts_def auth_opts_def
        pending_def user_agent_def c_string_def)

lemma sample_get_bad:
  "fst (get sample_env ''http://h/bad'' \<lparr>user_pass = [], curl = []\<rparr>) =
     \<lparr>code = 200, body = ''<html>'', headers = Map.empty\<rparr>"
  using execute_eq [of sample_env "GET ''http://h/bad''" "\<lparr>user_pass = [], curl = []\<rparr>"]
  by (simp add: Let_def collected_def sample_outcome_bad CURLE_OK_def write_callback_def
        static_cast_int_def)

lemma sample_outcome_get_down:
  "performed sample_env (GET ''http://h/down'') \<lparr>user_pass = [], curl = []\<rparr> =
     \<lparr>curlcode = 28, callbacks = [Write_cb ''part'' 1 4],
      error_text = ''Connection timed out'', http_code = 0\<rparr>"
  by (simp add: performed_def sample_env_def sample_perform_def setup_opts_def auth_opts_def
        pending_def user_agent_def c_string_def)

lemma sample_detail:
  "error_detail \<lparr>curlcode = 28, callbacks = [Write_cb ''part'' 1 4],
      error_text = ''Connection timed out'', http_code = 0\<rparr> = ''Connection timed out''"
  by (simp add: error_detail_def c_string_def CURL_ERROR_SIZE_def)

lemma no_getinfo_in_setup: "Getinfo_RESPONSE_CODE \<notin> set (map Setopt opts @ [Perform, Reset])"
  by auto

text \<open>
  Claim C1, amended. When the transport reports a failure, every verb method returns a
  response with code \<open>-1\<close> whose body is the text \<open>Failed to query. CURL error: \<close>, the
  stock description of the failure, the text \<open> DETAIL: \<close> (a space before it, no colon)
  and the detail text of the error buffer. The calls made on the handle are the options of
  the request, the perform and the reset: the status code is not asked for. The result is
  a response, not an exception.
\<close>

theorem transport_failure:
  assumes "curlcode (performed E rq c) \<noteq> CURLE_OK"
  shows "code (fst (execute E rq c)) = - 1
    \<and> body (fst (execute E rq c)) =
        ''Failed to query. CURL error: '' @ curl_easy_strerror E (curlcode (performed E rq c))
          @ '' DETAIL: '' @ error_detail (performed E rq c)
    \<and> curl (snd (execute E rq c)) = curl c @ map Setopt (setup_opts rq c) @ [Perform, Reset]
    \<and> Getinfo_RESPONSE_CODE \<notin> set (map Setopt (setup_opts rq c) @ [Perform, Reset])"
  using assms no_getinfo_in_setup [of "setup_opts rq c"]
  by (simp add: execute_eq Let_def)

text \<open>
  A GET to an address that cannot be reached: the whole result, with the body bytes
  received before the failure overwritten.
\<close>

theorem transport_failure_witness:
  "get sample_env ''http://h/down'' \<lparr>user_pass = [], curl = []\<rparr> =
     (\<lparr>code = - 1,
       body = ''Failed to query. CURL error: Timeout was reached DETAIL: Connection timed out'',
       headers = Map.empty\<rparr>,
      \<lparr>user_pass = [],
       curl = [Setopt CURLOPT_ERRORBUFFER, Setopt (CURLOPT_USERAGENT ''sopnet/0.10''),
               Setopt (CURLOPT_URL ''http://h/down''), Setopt CURLOPT_WRITEFUNCTION,
               Setopt CURLOPT_WRITEDATA, Setopt CURLOPT_HEADERFUNCTION,
               Setopt CURLOPT_HEADERDATA, Perform, Reset]\<rparr>)"
proof -
  let ?c = "\<lparr>user_pass = [], curl = []\<rparr>"
  let ?rq = "GET ''http://h/down''"
  have f: "curlcode (performed sample_env ?rq ?c) \<noteq> CURLE_OK"
    by (simp add: sample_outcome_get_down CURLE_OK_def)
  note t = transport_failure [OF f]
  have hd: "headers (fst (execute sample_env ?rq ?c)) = Map.empty"
    and up: "user_pass (snd (execute sample_env ?rq ?c)) = []"
    by (simp_all add: execute_eq Let_def collected_def sample_outcome_get_down CURLE_OK_def
          write_callback_def)
  have r: "fst (execute sample_env ?rq ?c) =
     \<lparr>code = - 1,
       body = ''Failed to query. CURL error: Timeout was reached DETAIL: Connection timed out'',
       headers = Map.empty\<rparr>"
    using t [THEN conjunct1] t [THEN conjunct2, THEN conjunct1] hd
    by (cases "fst (execute sample_env ?rq ?c)")
       (simp add: sample_outcome_get_down sample_detail, simp add: sample_env_def)
  have s: "snd (execute sample_env ?rq ?c) =
      \<lparr>user_pass = [],
       curl = [Setopt CURLOPT_ERRORBUFFER, Setopt (CURLOPT_USERAGENT ''sopnet/0.10''),
               Setopt (CURLOPT_URL ''http://h/down''), Setopt CURLOPT_WRITEFUNCTION,
               Setopt CURLOPT_WRITEDATA, Setopt CURLOPT_HEADERFUNCTION,
               Setopt CURLOPT_HEADERDATA, Perform, Reset]\<rparr>"
    using t [THEN conjunct2, THEN conjunct2, THEN conjunct1] up
    by (cases "snd (execute sample_env ?rq ?c)")
       (simp add: setup_opts_def auth_opts_def user_agent_def c_string_def)
  from r s show ?thesis by (simp add: prod_eq_iff)
qed

text \<open>
  Claim C1 as stated fails on that request: the body is not the stock description
  followed by \<open>: DETAIL: \<close> and the detail text.
\<close>

theorem transport_failure_separator_counterexample:
  "curlcode (performed sample_env (GET ''http://h/down'') \<lparr>user_pass = [], curl = []\<rparr>) \<noteq> CURLE_OK
   \<and> body (fst (get sample_env ''http://h/down'' \<lparr>user_pass = [], curl = []\<rparr>)) \<noteq>
       curl_easy_strerror sample_env
         (curlcode (performed sample_env (GET ''http://h/down'') \<lparr>user_pass = [], curl = []\<rparr>))
       @ '': DETAIL: ''
       @ error_detail (performed sample_env (GET ''http://h/down'') \<lparr>user_pass = [], curl = []\<rparr>)"
proof -
  let ?c = "\<lparr>user_pass = [], curl = []\<rparr>"
  let ?rq = "GET ''http://h/down''"
  have b: "body (fst (execute sample_env ?rq ?c)) =
      ''Failed to query. CURL error: Timeout was reached DETAIL: Connection timed out''"
    by (simp add: execute_eq Let_def sample_outcome_get_down CURLE_OK_def sample_detail)
       (simp add: sample_env_def)
  have e: "curl_easy_strerror sample_env 28 = ''Timeout was reached''"
    by (simp add: sample_env_def)
  show ?thesis
    using b by (simp add: sample_outcome_get_down sample_detail CURLE_OK_def e)
qed

text \<open>
  Claim C8, amended. \<^verbatim>\<open>setAuth\<close> stores \<open>user:password\<close> and \<^verbatim>\<open>clearAuth\<close> stores the
  empty string. A verb method leaves the stored string as it is and the handle with no
  option in force; the calls it makes are the options of its request and then the
  perform. So on a handle with nothing in force, after \<^verbatim>\<open>setAuth\<close> and any number of verb
  calls the next request is configured with basic authentication and, as its only
  credential, the C string of the stored string: its bytes before the first NUL. That is
  \<open>user:password\<close> itself when neither part holds a NUL. After \<^verbatim>\<open>clearAuth\<close> and any
  number of verb calls the next request carries no credentials.
\<close>

theorem credentials_persist:
  assumes "pending (curl c0) = []"
  shows "user_pass (setAuth user password c0) = user @ '':'' @ password
    \<and> user_pass (clearAuth c0) = []
    \<and> user_pass (snd (execute E rq c0)) = user_pass c0
    \<and> pending (curl (snd (execute E rq c0))) = []
    \<and> (\<exists>rest. curl (snd (execute E rq c0)) =
                 curl c0 @ map Setopt (setup_opts rq c0) @ Perform # rest)
    \<and> (let c = run_requests E rqs (setAuth user password c0)
       in user_pass c = user @ '':'' @ password
          \<and> CURLOPT_HTTPAUTH CURLAUTH_BASIC \<in> set (request_config rq c)
          \<and> CURLOPT_USERPWD (c_string (user @ '':'' @ password)) \<in> set (request_config rq c)
          \<and> (\<forall>s. CURLOPT_USERPWD s \<in> set (request_config rq c) \<longrightarrow>
                 s = c_string (user @ '':'' @ password))
          \<and> (CHR 0x00 \<notin> set user \<and> CHR 0x00 \<notin> set password \<longrightarrow>
                 CURLOPT_USERPWD (user @ '':'' @ password) \<in> set (request_config rq c)))
    \<and> (let c = run_requests E rqs (clearAuth c0)
       in user_pass c = []
          \<and> list_all (\<lambda>opt. \<not> is_auth_opt opt) (request_config rq c))"
proof -
  have sa: "user_pass (setAuth user password c0) = user @ '':'' @ password"
    and sc: "curl (setAuth user password c0) = curl c0"
    by (simp_all add: setAuth_def Let_def)
  have ca: "user_pass (clearAuth c0) = []" and cc: "curl (clearAuth c0) = curl c0"
    by (simp_all add: clearAuth_def)
  let ?c = "run_requests E rqs (setAuth user password c0)"
  let ?d = "run_requests E rqs (clearAuth c0)"
  have up: "user_pass ?c = user @ '':'' @ password"
    by (simp add: run_requests_user_pass sa)
  have pc: "pending (curl ?c) = []"
    using assms by (simp add: run_requests_pending sc)
  have ne: "user_pass ?c \<noteq> []" using up by simp
  have cfg: "request_config rq ?c = setup_opts rq ?c"
    by (simp add: request_config_def pending_setopts pc)
  have auth: "CURLOPT_HTTPAUTH CURLAUTH_BASIC \<in> set (request_config rq ?c)
          \<and> CURLOPT_USERPWD (c_string (user @ '':'' @ password)) \<in> set (request_config rq ?c)"
    using setup_opts_auth [OF ne, of rq] by (simp add: cfg up)
  have only: "\<forall>s. CURLOPT_USERPWD s \<in> set (request_config rq ?c) \<longrightarrow>
                 s = c_string (user @ '':'' @ password)"
    using setup_opts_userpwd [of _ rq ?c] by (simp add: cfg up)
  have whole: "CURLOPT_USERPWD (user @ '':'' @ password) \<in> set (request_config rq ?c)"
    if "CHR 0x00 \<notin> set user \<and> CHR 0x00 \<notin> set password"
  proof -
    from that have "c_string (user @ '':'' @ password) = user @ '':'' @ password"
      by (intro c_string_no_NUL) simp
    with auth show ?thesis by simp
  qed
  have ud: "user_pass ?d = []"
    by (simp add: run_requests_user_pass ca)
  have pd: "pending (curl ?d) = []"
    using assms by (simp add: run_requests_pending cc)
  have noauth: "list_all (\<lambda>opt. \<not> is_auth_opt opt) (request_config rq ?d)"
    using setup_opts_no_auth [OF ud, of rq]
    by (simp add: request_config_def pending_setopts pd)
  have first: "user_pass (setAuth user password c0) = user @ '':'' @ password
    \<and> user_pass (clearAuth c0) = []
    \<and> user_pass (snd (execute E rq c0)) = user_pass c0
    \<and> pending (curl (snd (execute E rq c0))) = []
    \<and> (\<exists>rest. curl (snd (execute E rq c0)) =
                 curl c0 @ map Setopt (setup_opts rq c0) @ Perform # rest)"
    using sa ca execute_user_pass [of E rq c0] execute_pending [of E rq c0]
      execute_calls [of E rq c0]
    by simp
  from first up auth only whole ud noauth
  show ?thesis unfolding Let_def by blast
qed

text \<open>
  The client as constructed; credentials set, two requests made, and the third request
  still carries them; credentials cleared, and the request after the next carries none.
\<close>

theorem credentials_persist_witness:
  "HttpClient sample_env = Inr \<lparr>user_pass = [], curl = []\<rparr>
   \<and> user_pass (setAuth ''alice'' ''s3cret'' \<lparr>user_pass = [], curl = []\<rparr>) = ''alice:s3cret''
   \<and> CURLOPT_USERPWD ''alice:s3cret''
       \<in> set (request_config (DELETE ''http://h/x'')
                (run_requests sample_env
                   [GET ''http://h/down'', PUT ''http://h/ok'' ''text/plain'' ''abc'']
                   (setAuth ''alice'' ''s3cret'' \<lparr>user_pass = [], curl = []\<rparr>)))
   \<and> list_all (\<lambda>opt. \<not> is_auth_opt opt)
        (request_config (GET ''http://h/ok'')
           (run_requests sample_env [POST ''http://h/500'' ''text/plain'' ''abc'']
              (clearAuth (setAuth ''alice'' ''s3cret'' \<lparr>user_pass = [], curl = []\<rparr>))))"
proof -
  let ?c0 = "\<lparr>user_pass = [], curl = []\<rparr>"
  let ?c1 = "setAuth ''alice'' ''s3cret'' ?c0"
  have p0: "pending (curl ?c0) = []" by (simp add: pending_def)
  have p1: "pending (curl ?c1) = []" by (simp add: pending_def setAuth_def Let_def)
  note a = credentials_persist [OF p0, where user = "''alice''" and password = "''s3cret''"
             and E = sample_env and rq = "DELETE ''http://h/x''"
             and rqs = "[GET ''http://h/down'', PUT ''http://h/ok'' ''text/plain'' ''abc'']"]
  note b = credentials_persist [OF p1, where E = sample_env and rq = "GET ''http://h/ok''"
             and rqs = "[POST ''http://h/500'' ''text/plain'' ''abc'']"]
  have 0: "HttpClient sample_env = Inr ?c0"
    by (simp add: HttpClient_def sample_env_def)
  have 1: "user_pass ?c1 = ''alice:s3cret''"
    using a [THEN conjunct1] by simp
  have 2: "CURLOPT_USERPWD ''alice:s3cret''
       \<in> set (request_config (DELETE ''http://h/x'')
                (run_requests sample_env
                   [GET ''http://h/down'', PUT ''http://h/ok'' ''text/plain'' ''abc''] ?c1))"
    using a [THEN conjunct2, THEN conjunct2, THEN conjunct2, THEN conjunct2, THEN conjunct2,
             THEN conjunct1]
    by (simp add: Let_def)
  have 3: "list_all (\<lambda>opt. \<not> is_auth_opt opt)
        (request_config (GET ''http://h/ok'')
           (run_requests sample_env [POST ''http://h/500'' ''text/plain'' ''abc'']
              (clearAuth ?c1)))"
    using b [THEN conjunct2, THEN conjunct2, THEN conjunct2, THEN conjunct2, THEN conjunct2,
             THEN conjunct2]
    by (simp add: Let_def)
  from 0 1 2 3 show ?thesis by simp
qed

text \<open>
  Claim C8 as stated fails for a user name that holds a NUL byte: the stored string is
  \<open>al\<close>, NUL, \<open>ice:pw\<close>, and the GET that follows is configured with the credential
  \<open>al\<close>, not with the stored string.
\<close>

theorem credentials_nul_counterexample:
  "user_pass (setAuth [CHR ''a'', CHR ''l'', CHR 0x00, CHR ''i'', CHR ''c'', CHR ''e''] ''pw''
               \<lparr>user_pass = [], curl = []\<rparr>) =
     [CHR ''a'', CHR ''l'', CHR 0x00, CHR ''i'', CHR ''c'', CHR ''e'', CHR '':'', CHR ''p'', CHR ''w'']
   \<and> curl (snd (get sample_env ''http://h/ok''
               (setAuth [CHR ''a'', CHR ''l'', CHR 0x00, CHR ''i'', CHR ''c'', CHR ''e''] ''pw''
                  \<lparr>user_pass = [], curl = []\<rparr>))) =
       [Setopt CURLOPT_ERRORBUFFER, Setopt (CURLOPT_HTTPAUTH CURLAUTH_BASIC),
        Setopt (CURLOPT_USERPWD ''al''), Setopt (CURLOPT_USERAGENT ''sopnet/0.10''),
        Setopt (CURLOPT_URL ''http://h/ok''), Setopt CURLOPT_WRITEFUNCTION,
        Setopt CURLOPT_WRITEDATA, Setopt CURLOPT_HEADERFUNCTION, Setopt CURLOPT_HEADERDATA,
        Perform, Getinfo_RESPONSE_CODE, Reset]
   \<and> CURLOPT_USERPWD
         [CHR ''a'', CHR ''l'', CHR 0x00, CHR ''i'', CHR ''c'', CHR ''e'', CHR '':'', CHR ''p'', CHR ''w'']
       \<notin> set (request_config (GET ''http://h/ok'')
                (setAuth [CHR ''a'', CHR ''l'', CHR 0x00, CHR ''i'', CHR ''c'', CHR ''e''] ''pw''
                   \<lparr>user_pass = [], curl = []\<rparr>))"
proof -
  let ?u = "[CHR ''a'', CHR ''l'', CHR 0x00, CHR ''i'', CHR ''c'', CHR ''e'']"
  let ?c = "setAuth ?u ''pw'' \<lparr>user_pass = [], curl = []\<rparr>"
  have c: "?c = \<lparr>user_pass = ?u @ '':pw'', curl = []\<rparr>"
    by (simp add: setAuth_def Let_def)
  have o: "setup_opts (GET ''http://h/ok'') ?c =
             [CURLOPT_ERRORBUFFER, CURLOPT_HTTPAUTH CURLAUTH_BASIC, CURLOPT_USERPWD ''al'',
              CURLOPT_USERAGENT ''sopnet/0.10'', CURLOPT_URL ''http://h/ok'',
              CURLOPT_WRITEFUNCTION, CURLOPT_WRITEDATA, CURLOPT_HEADERFUNCTION,
              CURLOPT_HEADERDATA]"
    unfolding c by (simp add: setup_opts_def auth_opts_def c_string_def user_agent_def)
  have p: "curlcode (performed sample_env (GET ''http://h/ok'') ?c) = CURLE_OK"
    unfolding performed_def o unfolding c
    by (simp add: sample_env_def sample_perform_def pending_def CURLE_OK_def)
  have 1: "user_pass ?c = ?u @ '':pw''" unfolding c by simp
  have 2: "curl (snd (execute sample_env (GET ''http://h/ok'') ?c)) =
             map Setopt (setup_opts (GET ''http://h/ok'') ?c)
             @ [Perform, Getinfo_RESPONSE_CODE, Reset]"
    using p by (simp add: execute_eq Let_def) (simp add: c)
  have 3: "CURLOPT_USERPWD (?u @ '':pw'')
             \<notin> set (request_config (GET ''http://h/ok'') ?c)"
    unfolding request_config_def pending_setopts o unfolding c
    by (simp add: pending_def)
  from 1 2 3 show ?thesis by (simp add: o)
qed

section \<open>Properties of the JSON layer\<close>

lemma parsePtree_status:
  "code res \<noteq> 200 \<Longrightarrow>
   parsePtree decode res url =
     (Inr (Some (status_tree (code res) url)),
      [''When trying url ['' @ url @ ''], received non-OK code '' @ show_int (code res) @ endl])"
  by (simp add: parsePtree_def Let_def handleNon200_def ptree_put_def status_tree_def)

lemma getPropertyTree_fst:
  "fst (getPropertyTree E url c) = parsePtree (read_json E) (fst (get E url c)) url"
  by (simp add: getPropertyTree_def split: prod.splits)

lemma postPropertyTree_fst:
  "fst (postPropertyTree E url dat c) =
     parsePtree (read_json E) (fst (post E url ''application/x-www-form-urlencoded'' dat c)) url"
  by (simp add: postPropertyTree_def split: prod.splits)

text \<open>
  Claim C2. For a response whose code is not 200, \<^verbatim>\<open>parsePtree\<close> logs the failure and
  returns, as a value, the tree whose only content is the key \<open>error\<close> with the text
  \<open>Status <code> when getting <url>\<close>; the body of the response plays no part. The same
  holds of \<^verbatim>\<open>getPropertyTree\<close> and \<^verbatim>\<open>postPropertyTree\<close> for the response of their
  request.
\<close>

theorem parsePtree_non200:
  "(code res \<noteq> 200 \<longrightarrow>
      parsePtree decode res url =
        (Inr (Some (Node [] [(''error'',
                 Node (''Status '' @ show_int (code res) @ '' when getting '' @ url) [])])),
         [''When trying url ['' @ url @ ''], received non-OK code ''
            @ show_int (code res) @ endl]))
   \<and> (code (fst (get E url c)) \<noteq> 200 \<longrightarrow>
        fst (getPropertyTree E url c) =
          (Inr (Some (status_tree (code (fst (get E url c))) url)),
           [''When trying url ['' @ url @ ''], received non-OK code ''
              @ show_int (code (fst (get E url c))) @ endl]))
   \<and> (code (fst (post E url ''application/x-www-form-urlencoded'' dat c)) \<noteq> 200 \<longrightarrow>
        fst (postPropertyTree E url dat c) =
          (Inr (Some (status_tree
                  (code (fst (post E url ''application/x-www-form-urlencoded'' dat c))) url)),
           [''When trying url ['' @ url @ ''], received non-OK code ''
              @ show_int (code (fst (post E url ''application/x-www-form-urlencoded'' dat c)))
              @ endl]))"
proof -
  have g: "fst (getPropertyTree E url c) = parsePtree (read_json E) (fst (get E url c)) url"
    by (simp add: getPropertyTree_def split: prod.splits)
  have p: "fst (postPropertyTree E url dat c) =
             parsePtree (read_json E)
               (fst (post E url ''application/x-www-form-urlencoded'' dat c)) url"
    by (simp add: postPropertyTree_def split: prod.splits)
  show ?thesis
    unfolding g p using parsePtree_status
    by (simp add: status_tree_def)
qed

text \<open>
  A 404 response, a GET answered with 500, and a POST that fails in the transport and
  so carries the code \<open>-1\<close>.
\<close>

theorem parsePtree_non200_witness:
  "parsePtree (\<lambda>s. Inr (Node s [])) \<lparr>code = 404, body = ''{}'', headers = Map.empty\<rparr> ''http://h/x'' =
     (Inr (Some (Node [] [(''error'', Node ''Status 404 when getting http://h/x'' [])])),
      [''When trying url [http://h/x], received non-OK code 404'' @ endl])
   \<and> fst (getPropertyTree sample_env ''http://h/500'' \<lparr>user_pass = [], curl = []\<rparr>) =
     (Inr (Some (Node [] [(''error'', Node ''Status 500 when getting http://h/500'' [])])),
      [''When trying url [http://h/500], received non-OK code 500'' @ endl])
   \<and> fst (postPropertyTree sample_env ''http://h/down'' ''x=1'' \<lparr>user_pass = [], curl = []\<rparr>) =
     (Inr (Some (Node [] [(''error'', Node ''Status -1 when getting http://h/down'' [])])),
      [''When trying url [http://h/down], received non-OK code -1'' @ endl])"
proof -
  have s404: "show_int 404 = ''404''"
    by (simp add: show_int_def decimal_digits.simps [of 404] decimal_digits.simps [of 40]
          decimal_digits.simps [of 4])
  note t1 = parsePtree_non200 [where res = "\<lparr>code = 404, body = ''{}'', headers = Map.empty\<rparr>"
                and decode = "\<lambda>s. Inr (Node s [])" and url = "''http://h/x''", THEN conjunct1]
  note t2 = parsePtree_non200 [where E = sample_env and url = "''http://h/500''"
                and c = "\<lparr>user_pass = [], curl = []\<rparr>", THEN conjunct2, THEN conjunct1]
  note t3 = parsePtree_non200 [where E = sample_env and url = "''http://h/down''"
                and c = "\<lparr>user_pass = [], curl = []\<rparr>" and dat = "''x=1''",
                THEN conjunct2, THEN conjunct2]
  have 1: "parsePtree (\<lambda>s. Inr (Node s [])) \<lparr>code = 404, body = ''{}'', headers = Map.empty\<rparr> ''http://h/x'' =
     (Inr (Some (Node [] [(''error'', Node ''Status 404 when getting http://h/x'' [])])),
      [''When trying url [http://h/x], received non-OK code 404'' @ endl])"
    using t1 by (simp add: s404)
  have 2: "fst (getPropertyTree sample_env ''http://h/500'' \<lparr>user_pass = [], curl = []\<rparr>) =
     (Inr (Some (Node [] [(''error'', Node ''Status 500 when getting http://h/500'' [])])),
      [''When trying url [http://h/500], received non-OK code 500'' @ endl])"
    using t2 by (simp add: sample_get_500 show_500 status_tree_def)
  have 3: "fst (postPropertyTree sample_env ''http://h/down'' ''x=1'' \<lparr>user_pass = [], curl = []\<rparr>) =
     (Inr (Some (Node [] [(''error'', Node ''Status -1 when getting http://h/down'' [])])),
      [''When trying url [http://h/down], received non-OK code -1'' @ endl])"
    using t3 by (simp add: sample_post_down show_minus_1 status_tree_def)
  from 1 2 3 show ?thesis by simp
qed

text \<open>
  Claim C3. For a response with code 200, \<^verbatim>\<open>parsePtree\<close> returns the decoded tree and
  logs nothing when the body decodes; when the decoder fails, it logs the URL and the raw
  body and the decoder's failure reaches the caller as a failure. The same holds of
  \<^verbatim>\<open>getPropertyTree\<close> and \<^verbatim>\<open>postPropertyTree\<close> for the response of their request.
\<close>

theorem parsePtree_200:
  "(code res = 200 \<and> decode (body res) = Inl e \<longrightarrow>
      parsePtree decode res url =
        (Inl (JsonParserError e),
         [''error reading result of URL:'' @ endl @ [CHR 0x09] @ url @ endl,
          ''response is:'' @ endl @ body res @ endl]))
   \<and> (code res = 200 \<and> decode (body res) = Inr t \<longrightarrow>
        parsePtree decode res url = (Inr (Some t), []))
   \<and> (code (fst (get E url c)) = 200 \<and> read_json E (body (fst (get E url c))) = Inl e \<longrightarrow>
        fst (getPropertyTree E url c) =
          (Inl (JsonParserError e), decode_log url (body (fst (get E url c)))))
   \<and> (code (fst (get E url c)) = 200 \<and> read_json E (body (fst (get E url c))) = Inr t \<longrightarrow>
        fst (getPropertyTree E url c) = (Inr (Some t), []))
   \<and> (code (fst (post E url ''application/x-www-form-urlencoded'' dat c)) = 200
        \<and> read_json E (body (fst (post E url ''application/x-www-form-urlencoded'' dat c))) = Inl e \<longrightarrow>
        fst (postPropertyTree E url dat c) =
          (Inl (JsonParserError e),
           decode_log url (body (fst (post E url ''application/x-www-form-urlencoded'' dat c)))))
   \<and> (code (fst (post E url ''application/x-www-form-urlencoded'' dat c)) = 200
        \<and> read_json E (body (fst (post E url ''application/x-www-form-urlencoded'' dat c))) = Inr t \<longrightarrow>
        fst (postPropertyTree E url dat c) = (Inr (Some t), []))"
  unfolding getPropertyTree_fst postPropertyTree_fst
  by (simp add: parsePtree_def decode_log_def)

text \<open>
  A body that decodes, one that does not, a GET answered with a page that is not JSON,
  and a POST answered with a JSON array.
\<close>

theorem parsePtree_200_witness:
  "parsePtree (read_json sample_env) \<lparr>code = 200, body = ''[7]'', headers = Map.empty\<rparr> ''http://h/x'' =
     (Inr (Some (Node [] [([], Node ''7'' [])])), [])
   \<and> parsePtree (read_json sample_env) \<lparr>code = 200, body = ''<html>'', headers = Map.empty\<rparr> ''http://h/x'' =
     (Inl (JsonParserError ''expected value''),
      [''error reading result of URL:'' @ endl @ [CHR 0x09] @ ''http://h/x'' @ endl,
       ''response is:'' @ endl @ ''<html>'' @ endl])
   \<and> fst (getPropertyTree sample_env ''http://h/bad'' \<lparr>user_pass = [], curl = []\<rparr>) =
     (Inl (JsonParserError ''expected value''),
      [''error reading result of URL:'' @ endl @ [CHR 0x09] @ ''http://h/bad'' @ endl,
       ''response is:'' @ endl @ ''<html>'' @ endl])
   \<and> fst (postPropertyTree sample_env ''http://h/ok'' ''x=1'' \<lparr>user_pass = [], curl = []\<rparr>) =
     (Inr (Some (Node [] [([], Node ''7'' [])])), [])"
proof -
  let ?c = "\<lparr>user_pass = [], curl = []\<rparr>"
  let ?t = "Node [] [([], Node ''7'' [])]"
  note a = parsePtree_200 [where res = "\<lparr>code = 200, body = ''[7]'', headers = Map.empty\<rparr>"
             and decode = "read_json sample_env" and url = "''http://h/x''" and t = ?t,
             THEN conjunct2, THEN conjunct1]
  note b = parsePtree_200 [where res = "\<lparr>code = 200, body = ''<html>'', headers = Map.empty\<rparr>"
             and decode = "read_json sample_env" and url = "''http://h/x''"
             and e = "''expected value''", THEN conjunct1]
  note g = parsePtree_200 [where E = sample_env and url = "''http://h/bad''" and c = ?c
             and e = "''expected value''", THEN conjunct2, THEN conjunct2, THEN conjunct1]
  note p = parsePtree_200 [where E = sample_env and url = "''http://h/ok''" and c = ?c
             and dat = "''x=1''" and t = ?t,
             THEN conjunct2, THEN conjunct2, THEN conjunct2, THEN conjunct2, THEN conjunct2]
  have 1: "parsePtree (read_json sample_env) \<lparr>code = 200, body = ''[7]'', headers = Map.empty\<rparr> ''http://h/x'' =
     (Inr (Some ?t), [])"
    using a by (simp add: sample_env_def)
  have 2: "parsePtree (read_json sample_env) \<lparr>code = 200, body = ''<html>'', headers = Map.empty\<rparr> ''http://h/x'' =
     (Inl (JsonParserError ''expected value''),
      [''error reading result of URL:'' @ endl @ [CHR 0x09] @ ''http://h/x'' @ endl,
       ''response is:'' @ endl @ ''<html>'' @ endl])"
    using b by (simp add: sample_env_def)
  have 3: "fst (getPropertyTree sample_env ''http://h/bad'' ?c) =
     (Inl (JsonParserError ''expected value''),
      [''error reading result of URL:'' @ endl @ [CHR 0x09] @ ''http://h/bad'' @ endl,
       ''response is:'' @ endl @ ''<html>'' @ endl])"
    using g by (simp add: sample_get_bad decode_log_def) (simp add: sample_env_def)
  have 4: "fst (postPropertyTree sample_env ''http://h/ok'' ''x=1'' ?c) = (Inr (Some ?t), [])"
    using p by (simp add: sample_post_ok) (simp add: sample_env_def)
  from 1 2 3 4 show ?thesis by simp
qed

end
